theory Spec2Isabelle
  imports Main
begin

text \<open>
  A shallow embedding of the filter and query engine of PHOS: the expression parser and
  serializer of \<open>FilterSearch\<close>, the transform builder \<open>SpecManager.toTransformState\<close>, the
  schema inference, the query and the row mutations of \<open>NativeArrayProvider\<close>, and the SQL
  generation and the query of \<open>DuckDBWasmProvider\<close>; then the properties proved of them.
\<close>

section \<open>JavaScript values\<close>

text \<open>
  The values a record field or a filter value can hold: the JSON values, and \<open>undefined\<close>
  for a missing property. Numbers are the integers (no NaN, no fractions); where a conversion
  gives NaN the model returns \<open>None\<close>. Strings are lists of 8-bit characters.
\<close>

datatype jsval = JUndefined | JNull | JBool bool | JNum int | JStr string | JArr "jsval list"

text \<open>
  A row is an object: its own properties in enumeration order. \<open>row[k]\<close> is the value of
  the property, \<open>undefined\<close> when there is none.
\<close>

type_synonym row = "(string \<times> jsval) list"

definition getField :: "row \<Rightarrow> string \<Rightarrow> jsval" where
  "getField r k = (case map_of r k of None \<Rightarrow> JUndefined | Some v \<Rightarrow> v)"

text \<open>\<open>row[k] = v\<close>: an existing property keeps its place, a new one is added last.\<close>

fun setField :: "row \<Rightarrow> string \<Rightarrow> jsval \<Rightarrow> row" where
  "setField [] k v = [(k, v)]"
| "setField ((k', v') # r) k v = (if k' = k then (k, v) # r else (k', v') # setField r k v)"

text \<open>
  What the host gives and the model does not compute: \<open>Number(s)\<close> on a string (\<open>None\<close>
  for NaN) and whether \<open>Date.parse(s)\<close> is a number.
\<close>

record host =
  numberOfString :: "string \<Rightarrow> int option"
  dateParses :: "string \<Rightarrow> bool"

subsection \<open>Strings\<close>

fun stringOfNat :: "nat \<Rightarrow> string" where
  "stringOfNat n =
     (if n < 10 then [char_of (48 + n)]
      else stringOfNat (n div 10) @ [char_of (48 + n mod 10)])"

declare stringOfNat.simps [simp del]

definition stringOfInt :: "int \<Rightarrow> string" where
  "stringOfInt i = (if i < 0 then CHR ''-'' # stringOfNat (nat (- i)) else stringOfNat (nat i))"

fun joinWith :: "string \<Rightarrow> string list \<Rightarrow> string" where
  "joinWith sep [] = []"
| "joinWith sep [x] = x"
| "joinWith sep (x # y # ys) = x @ sep @ joinWith sep (y # ys)"

text \<open>\<open>s.split(c)\<close> for a one-character separator: the empty string gives one empty piece.\<close>

fun splitOn :: "char \<Rightarrow> string \<Rightarrow> string list" where
  "splitOn c [] = [[]]"
| "splitOn c (x # xs) =
     (if x = c then [] # splitOn c xs
      else (case splitOn c xs of [] \<Rightarrow> [[x]] | p # ps \<Rightarrow> (x # p) # ps))"

text \<open>White space of \<open>\s\<close> and of \<open>trim\<close> among the 8-bit characters.\<close>

definition isSpace :: "char \<Rightarrow> bool" where
  "isSpace c = (of_char c \<in> {9, 10, 11, 12, 13, 32, 160 :: nat})"

definition trim :: "string \<Rightarrow> string" where
  "trim s = rev (dropWhile isSpace (rev (dropWhile isSpace s)))"

fun startsWith :: "string \<Rightarrow> string \<Rightarrow> bool" where
  "startsWith s [] = True"
| "startsWith [] (p # ps) = False"
| "startsWith (c # cs) (p # ps) = (c = p \<and> startsWith cs ps)"

text \<open>\<open>s.includes(t)\<close> on strings: \<open>t\<close> occurs in \<open>s\<close>.\<close>

fun strIncludes :: "string \<Rightarrow> string \<Rightarrow> bool" where
  "strIncludes [] t = (t = [])"
| "strIncludes (c # cs) t = (startsWith (c # cs) t \<or> strIncludes cs t)"

text \<open>Case conversion of the ASCII letters; other characters are left as they are.\<close>

definition lowerChar :: "char \<Rightarrow> char" where
  "lowerChar c = (let n = of_char c :: nat in if 65 \<le> n \<and> n \<le> 90 then char_of (n + 32) else c)"

definition upperChar :: "char \<Rightarrow> char" where
  "upperChar c = (let n = of_char c :: nat in if 97 \<le> n \<and> n \<le> 122 then char_of (n - 32) else c)"

definition toLowerCase :: "string \<Rightarrow> string" where
  "toLowerCase s = map lowerChar s"

definition toUpperCase :: "string \<Rightarrow> string" where
  "toUpperCase s = map upperChar s"

text \<open>The order of \<open><\<close> on two strings: by code units, a proper prefix first.\<close>

fun strLess :: "string \<Rightarrow> string \<Rightarrow> bool" where
  "strLess [] [] = False"
| "strLess [] (y # ys) = True"
| "strLess (x # xs) [] = False"
| "strLess (x # xs) (y # ys) =
     ((of_char x :: nat) < of_char y \<or> (x = y \<and> strLess xs ys))"

subsection \<open>Conversions and comparisons\<close>

text \<open>\<open>String(v)\<close>; an array joins its elements with a comma, null and undefined as empty.\<close>

fun toString :: "jsval \<Rightarrow> string" where
  "toString JUndefined = ''undefined''"
| "toString JNull = ''null''"
| "toString (JBool b) = (if b then ''true'' else ''false'')"
| "toString (JNum n) = stringOfInt n"
| "toString (JStr s) = s"
| "toString (JArr xs) =
     joinWith '','' (map (\<lambda>x. if x = JUndefined \<or> x = JNull then [] else toString x) xs)"

text \<open>\<open>Number(v)\<close>, \<open>None\<close> for NaN; an array is converted through its string.\<close>

definition toNumber :: "host \<Rightarrow> jsval \<Rightarrow> int option" where
  "toNumber h v =
     (case v of
        JUndefined \<Rightarrow> None
      | JNull \<Rightarrow> Some 0
      | JBool b \<Rightarrow> Some (if b then 1 else 0)
      | JNum n \<Rightarrow> Some n
      | JStr s \<Rightarrow> numberOfString h s
      | JArr xs \<Rightarrow> numberOfString h (toString (JArr xs)))"

definition truthy :: "jsval \<Rightarrow> bool" where
  "truthy v =
     (case v of
        JUndefined \<Rightarrow> False
      | JNull \<Rightarrow> False
      | JBool b \<Rightarrow> b
      | JNum n \<Rightarrow> n \<noteq> 0
      | JStr s \<Rightarrow> s \<noteq> []
      | JArr xs \<Rightarrow> True)"

text \<open>\<open>a || b\<close>.\<close>

definition jsOr :: "jsval \<Rightarrow> jsval \<Rightarrow> jsval" where
  "jsOr a b = (if truthy a then a else b)"

text \<open>
  \<open>a === b\<close>. Two arrays are equal only when they are the same object; a filter value and
  a record field never share one, so two arrays compare unequal.
\<close>

fun strictEq :: "jsval \<Rightarrow> jsval \<Rightarrow> bool" where
  "strictEq JUndefined JUndefined = True"
| "strictEq JNull JNull = True"
| "strictEq (JBool a) (JBool b) = (a = b)"
| "strictEq (JNum a) (JNum b) = (a = b)"
| "strictEq (JStr a) (JStr b) = (a = b)"
| "strictEq a b = False"

text \<open>\<open>xs.includes(v)\<close> on an array.\<close>

definition arrIncludes :: "jsval list \<Rightarrow> jsval \<Rightarrow> bool" where
  "arrIncludes xs v = list_ex (\<lambda>x. strictEq x v) xs"

text \<open>\<open>v == null\<close>.\<close>

definition isNullish :: "jsval \<Rightarrow> bool" where
  "isNullish v = (v = JUndefined \<or> v = JNull)"

definition toPrimitive :: "jsval \<Rightarrow> jsval" where
  "toPrimitive v = (case v of JArr xs \<Rightarrow> JStr (toString (JArr xs)) | _ \<Rightarrow> v)"

text \<open>
  The comparison behind \<open><\<close>, \<open>>\<close>, \<open><=\<close> and \<open>>=\<close>: two strings by code units, anything
  else as numbers, \<open>None\<close> (undefined) when one of them is NaN.
\<close>

definition abstractLess :: "host \<Rightarrow> jsval \<Rightarrow> jsval \<Rightarrow> bool option" where
  "abstractLess h x y =
     (case (toPrimitive x, toPrimitive y) of
        (JStr a, JStr b) \<Rightarrow> Some (strLess a b)
      | (px, py) \<Rightarrow>
          (case (toNumber h px, toNumber h py) of
             (Some m, Some n) \<Rightarrow> Some (m < n)
           | _ \<Rightarrow> None))"

definition jsLt :: "host \<Rightarrow> jsval \<Rightarrow> jsval \<Rightarrow> bool" where
  "jsLt h a b = (abstractLess h a b = Some True)"

definition jsGt :: "host \<Rightarrow> jsval \<Rightarrow> jsval \<Rightarrow> bool" where
  "jsGt h a b = (abstractLess h b a = Some True)"

definition jsLe :: "host \<Rightarrow> jsval \<Rightarrow> jsval \<Rightarrow> bool" where
  "jsLe h a b = (abstractLess h b a = Some False)"

definition jsGe :: "host \<Rightarrow> jsval \<Rightarrow> jsval \<Rightarrow> bool" where
  "jsGe h a b = (abstractLess h a b = Some False)"

text \<open>\<open>xs[i]\<close> on an array: \<open>undefined\<close> out of range.\<close>

definition arrAt :: "jsval list \<Rightarrow> nat \<Rightarrow> jsval" where
  "arrAt xs i = (if i < length xs then xs ! i else JUndefined)"

text \<open>
  \<open>xs.slice(start, end)\<close> on integers: a negative index counts from the end, and both
  ends are clamped to the array.
\<close>

definition jsSlice :: "'a list \<Rightarrow> int \<Rightarrow> int \<Rightarrow> 'a list" where
  "jsSlice xs start end' =
     (let len = int (length xs);
          k = (if start < 0 then max (len + start) 0 else min start len);
          final = (if end' < 0 then max (len + end') 0 else min end' len)
      in take (nat (final - k)) (drop (nat k) xs))"

section \<open>The transform and the schema\<close>

text \<open>
  A canonical filter \<open>{column, operator, value, mode?}\<close>; the native executor also reads an
  optional \<open>columns\<close> list (a search over several columns). A sort rule
  \<open>{column, direction}\<close>. Pagination \<open>{limit, offset}\<close>, either of which can be missing.
\<close>

record canonicalFilter =
  column :: string
  operator :: string
  fvalue :: jsval
  mode :: "string option"
  columns :: "string list option"

record sortRule =
  sortColumn :: string
  direction :: string

record pagination =
  limit :: "int option"
  offset :: "int option"

record transformState =
  filters :: "canonicalFilter list"
  sortRules :: "sortRule list"
  pageOf :: "pagination option"

record hierarchyEntry =
  delimiter :: string

record schema =
  schemaColumns :: "(string \<times> string) list"
  types :: "string \<rightharpoonup> string"
  hierarchy :: "string \<rightharpoonup> hierarchyEntry"
  aliases :: "string \<rightharpoonup> string"

record 's queryResult =
  resultData :: "row list"
  totalCount :: jsval
  resultSchema :: 's

definition emptySchema :: schema where
  "emptySchema = \<lparr>schemaColumns = [], types = Map.empty, hierarchy = Map.empty, aliases = Map.empty\<rparr>"

section \<open>NativeArrayProvider\<close>

record nativeProvider =
  nData :: "row list"
  nSchema :: schema

datatype error =
    RowNotFound jsval
  | SchemaNotLoaded
  | UnknownColumn string
  | InvalidTableName string
  | EngineError string

subsection \<open>Schema inference\<close>

definition inferType :: "host \<Rightarrow> jsval \<Rightarrow> string" where
  "inferType h v =
     (case v of
        JUndefined \<Rightarrow> ''string''
      | JNull \<Rightarrow> ''string''
      | JNum n \<Rightarrow> ''number''
      | JBool b \<Rightarrow> ''boolean''
      | JStr s \<Rightarrow>
          (if dateParses h s then ''date''
           else if numberOfString h s \<noteq> None then ''number''
           else ''string'')
      | JArr xs \<Rightarrow> ''string'')"

text \<open>One step of the loop over \<open>Object.keys(sample)\<close>.\<close>

definition inferKey :: "host \<Rightarrow> row \<Rightarrow> schema \<Rightarrow> string \<Rightarrow> schema" where
  "inferKey h sample sch key =
     (if startsWith key ''__'' then sch
      else
        let ty = inferType h (getField sample key);
            sch1 = sch\<lparr>schemaColumns := schemaColumns sch @ [(key, ty)],
                       types := (types sch)(key \<mapsto> ty)\<rparr>
        in (case getField sample key of
              JStr s \<Rightarrow>
                (if CHR ''>'' \<in> set s
                 then sch1\<lparr>hierarchy := (hierarchy sch1)(key \<mapsto> \<lparr>delimiter = ''>''\<rparr>),
                           types := (types sch1)(key \<mapsto> ''hierarchy'')\<rparr>
                 else sch1)
            | _ \<Rightarrow> sch1))"

definition inferSchema :: "host \<Rightarrow> row list \<Rightarrow> schema" where
  "inferSchema h rows =
     (case rows of
        [] \<Rightarrow> emptySchema
      | sample # _ \<Rightarrow> foldl (inferKey h sample) emptySchema (map fst sample))"

subsection \<open>Filtering\<close>

definition checkCondition :: "host \<Rightarrow> jsval \<Rightarrow> string \<Rightarrow> jsval \<Rightarrow> bool" where
  "checkCondition h v op fv =
     (if op = ''='' then
        (case v of JArr xs \<Rightarrow> arrIncludes xs fv | _ \<Rightarrow> strictEq v fv)
      else if op = ''!='' then
        (case v of JArr xs \<Rightarrow> \<not> arrIncludes xs fv | _ \<Rightarrow> \<not> strictEq v fv)
      else if op = ''>'' then jsGt h v fv
      else if op = ''<'' then jsLt h v fv
      else if op = ''>='' then jsGe h v fv
      else if op = ''<='' then jsLe h v fv
      else if op = ''LIKE'' then strIncludes (toString v) (toString fv)
      else if op = ''ILIKE'' then
        strIncludes (toLowerCase (toString v)) (toLowerCase (toString fv))
      else if op = ''IN'' then
        (case fv of JArr fs \<Rightarrow> arrIncludes fs v | _ \<Rightarrow> False)
      else if op = ''in'' then
        (case v of
           JArr xs \<Rightarrow> (case fv of JArr fs \<Rightarrow> list_ex (\<lambda>f. arrIncludes xs f) fs | _ \<Rightarrow> False)
         | _ \<Rightarrow> (case fv of JArr fs \<Rightarrow> arrIncludes fs v | _ \<Rightarrow> False))
      else if op = ''in_all'' then
        (case v of
           JArr xs \<Rightarrow> (case fv of JArr fs \<Rightarrow> list_all (\<lambda>f. arrIncludes xs f) fs | _ \<Rightarrow> False)
         | _ \<Rightarrow>
            (let rowValues = map (\<lambda>s. JStr (trim s)) (splitOn CHR '','' (toString v))
             in (case fv of JArr fs \<Rightarrow> list_all (\<lambda>f. arrIncludes rowValues f) fs | _ \<Rightarrow> False)))
      else if op = ''BETWEEN'' then
        (case fv of JArr fs \<Rightarrow> jsGe h v (arrAt fs 0) \<and> jsLe h v (arrAt fs 1) | _ \<Rightarrow> False)
      else if op = ''IS NULL'' then isNullish v
      else if op = ''IS NOT NULL'' then \<not> isNullish v
      else True)"

definition recognizedOperators :: "string list" where
  "recognizedOperators =
     [''='', ''!='', ''>'', ''<'', ''>='', ''<='', ''LIKE'', ''ILIKE'', ''IN'', ''in'', ''in_all'',
      ''BETWEEN'', ''IS NULL'', ''IS NOT NULL'']"

definition matchesFilter :: "host \<Rightarrow> row \<Rightarrow> canonicalFilter \<Rightarrow> bool" where
  "matchesFilter h r f =
     (case columns f of
        Some cols \<Rightarrow> list_ex (\<lambda>c. checkCondition h (getField r c) (operator f) (fvalue f)) cols
      | None \<Rightarrow> checkCondition h (getField r (column f)) (operator f) (fvalue f))"

definition matchesFilters :: "host \<Rightarrow> row \<Rightarrow> canonicalFilter list \<Rightarrow> bool" where
  "matchesFilters h r fs = list_all (matchesFilter h r) fs"

subsection \<open>Sorting\<close>

text \<open>The comparator of \<open>applySorting\<close>: the first rule that tells the rows apart decides.\<close>

fun compareRows :: "host \<Rightarrow> sortRule list \<Rightarrow> row \<Rightarrow> row \<Rightarrow> int" where
  "compareRows h [] a b = 0"
| "compareRows h (rule # rules) a b =
     (let aVal = getField a (sortColumn rule);
          bVal = getField b (sortColumn rule);
          comparison = (if jsLt h aVal bVal then - 1 else if jsGt h aVal bVal then 1 else 0)
      in if comparison \<noteq> 0
         then (if direction rule = ''asc'' then comparison else - comparison)
         else compareRows h rules a b)"

text \<open>
  \<open>Array.prototype.sort\<close> is stable; with a comparator it is modelled as the stable
  insertion sort (what every conforming sort returns when the comparator is consistent).
\<close>

fun insertBy :: "('a \<Rightarrow> 'a \<Rightarrow> int) \<Rightarrow> 'a \<Rightarrow> 'a list \<Rightarrow> 'a list" where
  "insertBy cmp x [] = [x]"
| "insertBy cmp x (y # ys) = (if cmp x y \<le> 0 then x # y # ys else y # insertBy cmp x ys)"

definition sortBy :: "('a \<Rightarrow> 'a \<Rightarrow> int) \<Rightarrow> 'a list \<Rightarrow> 'a list" where
  "sortBy cmp xs = foldr (insertBy cmp) xs []"

definition applySorting :: "host \<Rightarrow> row list \<Rightarrow> sortRule list \<Rightarrow> row list" where
  "applySorting h rows rules = sortBy (compareRows h rules) rows"

subsection \<open>query\<close>

definition filteredRows :: "host \<Rightarrow> row list \<Rightarrow> transformState \<Rightarrow> row list" where
  "filteredRows h rows t =
     (let filtered = (if filters t \<noteq> [] then filter (\<lambda>r. matchesFilters h r (filters t)) rows
                      else rows)
      in if sortRules t \<noteq> [] then applySorting h filtered (sortRules t) else filtered)"

definition nativeQuery :: "host \<Rightarrow> nativeProvider \<Rightarrow> transformState \<Rightarrow> schema queryResult" where
  "nativeQuery h p t =
     (let filtered = filteredRows h (nData p) t;
          total = JNum (int (length filtered));
          page =
            (case pageOf t of
               None \<Rightarrow> filtered
             | Some pg \<Rightarrow>
                 (case limit pg of
                    None \<Rightarrow> filtered
                  | Some lim \<Rightarrow>
                      (case offset pg of
                         None \<Rightarrow> jsSlice filtered 0 0
                       | Some off \<Rightarrow> jsSlice filtered off (off + lim))))
      in \<lparr>resultData = page, totalCount = total, resultSchema = nSchema p\<rparr>)"

subsection \<open>Mutations\<close>

definition hasRowId :: "jsval \<Rightarrow> row \<Rightarrow> bool" where
  "hasRowId rowId r = strictEq (getField r ''__rowid'') rowId"

text \<open>The value \<open>updateCell\<close> stores: the text of a boolean or, in a number column, of a number is parsed.\<close>

definition parseCellValue :: "host \<Rightarrow> schema \<Rightarrow> string \<Rightarrow> jsval \<Rightarrow> jsval" where
  "parseCellValue h sch col v =
     (if v = JStr ''true'' then JBool True
      else if v = JStr ''false'' then JBool False
      else if toNumber h v \<noteq> None \<and> v \<noteq> JStr [] \<and> v \<noteq> JNull then
        (if types sch col = Some ''number''
         then (case toNumber h v of Some n \<Rightarrow> JNum n | None \<Rightarrow> v)
         else v)
      else v)"

fun updateFirst :: "('a \<Rightarrow> bool) \<Rightarrow> ('a \<Rightarrow> 'a) \<Rightarrow> 'a list \<Rightarrow> 'a list" where
  "updateFirst P f [] = []"
| "updateFirst P f (x # xs) = (if P x then f x # xs else x # updateFirst P f xs)"

definition updateCell ::
  "host \<Rightarrow> nativeProvider \<Rightarrow> jsval \<Rightarrow> string \<Rightarrow> jsval \<Rightarrow> error + nativeProvider" where
  "updateCell h p rowId col v =
     (case find (hasRowId rowId) (nData p) of
        None \<Rightarrow> Inl (RowNotFound rowId)
      | Some r \<Rightarrow>
          Inr (p\<lparr>nData := updateFirst (hasRowId rowId)
                 (\<lambda>r. setField r col (parseCellValue h (nSchema p) col v)) (nData p)\<rparr>))"

definition deleteRow :: "nativeProvider \<Rightarrow> jsval \<Rightarrow> error + nativeProvider" where
  "deleteRow p rowId = Inr (p\<lparr>nData := filter (\<lambda>r. \<not> hasRowId rowId r) (nData p)\<rparr>)"

text \<open>\<open>Date.now()\<close> is the argument \<open>now\<close>. The copy is inserted after the first row with the identifier.\<close>

fun insertAfterFirst :: "('a \<Rightarrow> bool) \<Rightarrow> 'a \<Rightarrow> 'a list \<Rightarrow> 'a list" where
  "insertAfterFirst P y [] = []"
| "insertAfterFirst P y (x # xs) = (if P x then x # y # xs else x # insertAfterFirst P y xs)"

definition duplicateRow :: "int \<Rightarrow> nativeProvider \<Rightarrow> jsval \<Rightarrow> error + nativeProvider" where
  "duplicateRow now p rowId =
     (case find (hasRowId rowId) (nData p) of
        None \<Rightarrow> Inr p
      | Some r \<Rightarrow>
          (let newRow = setField r ''__rowid''
                 (JStr (''row_'' @ stringOfNat (length (nData p)) @ ''_'' @ stringOfInt now))
           in Inr (p\<lparr>nData := insertAfterFirst (hasRowId rowId) newRow (nData p)\<rparr>)))"

section \<open>SpecManager.toTransformState\<close>

text \<open>
  A filter entry of the spec's filter list, \<open>{column, operator, value, enabled, mode?}\<close>, and
  the part of the spec state the transform is built from.
\<close>

record filterEntry =
  eColumn :: string
  eOperator :: string
  eValue :: jsval
  eEnabled :: bool
  eMode :: "string option"

record specPagination =
  page :: jsval
  pageSize :: jsval

record specState =
  sFilters :: "filterEntry list"
  sSort :: "sortRule list"
  sPagination :: specPagination

text \<open>
  \<open>filtersByColumn\<close> is a \<open>Map\<close> from a column to the array of its entries: keys in the
  order of their first insertion, and an array is created together with its first entry
  (so a group is its first entry and the ones pushed after it).
\<close>

type_synonym filterGroup = "string \<times> filterEntry \<times> filterEntry list"

fun addToGroups :: "filterGroup list \<Rightarrow> filterEntry \<Rightarrow> filterGroup list" where
  "addToGroups [] f = [(eColumn f, f, [])]"
| "addToGroups ((c, f0, fs) # gs) f =
     (if c = eColumn f then (c, f0, fs @ [f]) # gs else (c, f0, fs) # addToGroups gs f)"

definition filtersByColumn :: "filterEntry list \<Rightarrow> filterGroup list" where
  "filtersByColumn es = foldl addToGroups [] (filter eEnabled es)"

text \<open>
  What the groups of \<open>filtersByColumn\<close> are for a list of entries: one group per column, in
  it the entries of that column in their order, and a group for every entry.
\<close>

definition groupsOf :: "filterGroup list \<Rightarrow> filterEntry list \<Rightarrow> bool" where
  "groupsOf gs xs \<longleftrightarrow>
     distinct (map fst gs)
     \<and> (\<forall>c f0 fs. (c, f0, fs) \<in> set gs \<longrightarrow> [f \<leftarrow> xs. eColumn f = c] = f0 # fs)
     \<and> (\<forall>f \<in> set xs. eColumn f \<in> fst ` set gs)"

definition groupMode :: "filterEntry \<Rightarrow> string" where
  "groupMode f0 = (case eMode f0 of None \<Rightarrow> ''ANY'' | Some m \<Rightarrow> if m = [] then ''ANY'' else m)"

definition groupToFilter :: "filterGroup \<Rightarrow> canonicalFilter" where
  "groupToFilter g =
     (case g of (c, f0, fs) \<Rightarrow>
        if fs = [] then
          \<lparr>column = eColumn f0, operator = eOperator f0, fvalue = eValue f0,
           mode = None, columns = None\<rparr>
        else
          \<lparr>column = c,
           operator = (if groupMode f0 = ''ANY'' then ''in'' else ''in_all''),
           fvalue = JArr (map eValue (f0 # fs)),
           mode = Some (groupMode f0), columns = None\<rparr>)"

definition buildPagination :: "host \<Rightarrow> specPagination \<Rightarrow> pagination option" where
  "buildPagination h pg =
     (if pageSize pg \<noteq> JNull \<and> pageSize pg \<noteq> JUndefined then
        (let safePageSize = (case toNumber h (pageSize pg) of Some n \<Rightarrow> max 0 n | None \<Rightarrow> 0);
             safePage = (case toNumber h (page pg) of Some n \<Rightarrow> max 1 n | None \<Rightarrow> 1)
         in Some \<lparr>limit = Some safePageSize, offset = Some ((safePage - 1) * safePageSize)\<rparr>)
      else None)"

definition toTransformState :: "host \<Rightarrow> specState \<Rightarrow> transformState" where
  "toTransformState h st =
     \<lparr>filters = map groupToFilter (filtersByColumn (sFilters st)),
      sortRules = map (\<lambda>s. \<lparr>sortColumn = sortColumn s, direction = direction s\<rparr>) (sSort st),
      pageOf = buildPagination h (sPagination st)\<rparr>"

section \<open>FilterSearch: parseExpression and serializeBlocks\<close>

datatype block =
    FilterBlock (blockColumn: string) (blockOperator: string) (blockValue: string) (blockRaw: string)
  | FulltextBlock (blockValue: string) (blockRaw: string)

text \<open>\<open>\w\<close>: a letter, a digit or the underscore.\<close>

definition isWordChar :: "char \<Rightarrow> bool" where
  "isWordChar c =
     (let n = of_char c :: nat
      in (48 \<le> n \<and> n \<le> 57) \<or> (65 \<le> n \<and> n \<le> 90) \<or> (97 \<le> n \<and> n \<le> 122) \<or> n = 95)"

definition operatorSigils :: "string list" where
  "operatorSigils = [''>='', ''<='', ''!='', ''='', ''>'', ''<'', ''~'', ''LIKE'', ''IN'']"

text \<open>
  \<open>value.match(/^(>=|<=|!=|=|>|<|~|LIKE|IN)?(.*)$/)\<close>: the first alternative that starts the
  value, and the rest of the value.
\<close>

definition matchOperator :: "string \<Rightarrow> string option \<times> string" where
  "matchOperator v =
     (case find (startsWith v) operatorSigils of
        None \<Rightarrow> (None, v)
      | Some op \<Rightarrow> (Some op, drop (length op) v))"

definition normalizeOperator :: "string \<Rightarrow> string" where
  "normalizeOperator op =
     (case map_of
        [(''='', ''=''), (''=='', ''=''), (''!='', ''!=''), (''<>'', ''!=''), (''>'', ''>''),
         (''<'', ''<''), (''>='', ''>=''), (''<='', ''<=''), (''~'', ''LIKE''),
         (''LIKE'', ''LIKE''), (''IN'', ''IN'')] op of
        Some n \<Rightarrow> n
      | None \<Rightarrow> ''='')"

definition filterBlockOf :: "string \<Rightarrow> string \<Rightarrow> block" where
  "filterBlockOf col v =
     (case matchOperator v of (opm, cleanValue) \<Rightarrow>
        FilterBlock col
          (normalizeOperator (case opm of None \<Rightarrow> ''='' | Some op \<Rightarrow> op))
          cleanValue (col @ '':'' @ v))"

text \<open>
  One \<open>regex.exec\<close> of \<open>/(\w+):([^\s]+)|([^\s:]+)/g\<close> tried at the start of the text: the
  block of the match and the text after it, or \<open>None\<close> when neither alternative matches
  there (the search then moves one character on).
\<close>

definition notSpace :: "char \<Rightarrow> bool" where
  "notSpace c = (\<not> isSpace c)"

definition wordPart :: "char \<Rightarrow> bool" where
  "wordPart c = (\<not> isSpace c \<and> c \<noteq> CHR '':'')"

definition matchAt :: "string \<Rightarrow> (block \<times> string) option" where
  "matchAt s =
     (let key = takeWhile isWordChar s; rest = dropWhile isWordChar s
      in if key \<noteq> [] \<and> rest \<noteq> [] \<and> hd rest = CHR '':'' \<and> takeWhile notSpace (tl rest) \<noteq> []
         then Some (filterBlockOf key (takeWhile notSpace (tl rest)), dropWhile notSpace (tl rest))
         else if takeWhile wordPart s \<noteq> []
         then Some (FulltextBlock (takeWhile wordPart s) (takeWhile wordPart s),
                    dropWhile wordPart s)
         else None)"

lemma matchAt_shorter: "matchAt s = Some (b, r) \<Longrightarrow> length r < length s"
proof -
  assume m: "matchAt s = Some (b, r)"
  have a: "length (dropWhile notSpace (tl (dropWhile isWordChar s))) < length s"
    if "dropWhile isWordChar s \<noteq> []"
  proof -
    have "length (dropWhile notSpace (tl (dropWhile isWordChar s)))
            \<le> length (tl (dropWhile isWordChar s))"
      by (rule length_dropWhile_le)
    also have "\<dots> < length (dropWhile isWordChar s)"
      using that by (cases "dropWhile isWordChar s") simp_all
    also have "\<dots> \<le> length s"
      by (rule length_dropWhile_le)
    finally show ?thesis .
  qed
  have b: "length (dropWhile wordPart s) < length s" if "takeWhile wordPart s \<noteq> []"
  proof -
    have "length (takeWhile wordPart s) + length (dropWhile wordPart s) = length s"
      by (metis length_append takeWhile_dropWhile_id)
    moreover have "0 < length (takeWhile wordPart s)"
      using that by simp
    ultimately show ?thesis by linarith
  qed
  from m a b show ?thesis
    by (auto simp: matchAt_def Let_def split: if_splits)
qed

function parseFrom :: "string \<Rightarrow> block list" where
  "parseFrom [] = []"
| "parseFrom (c # cs) =
     (case matchAt (c # cs) of
        Some (b, r) \<Rightarrow> b # parseFrom r
      | None \<Rightarrow> parseFrom cs)"
  by pat_completeness auto
termination
  by (relation "measure length") (auto dest: matchAt_shorter)

definition parseExpression :: "string \<Rightarrow> block list" where
  "parseExpression text = parseFrom text"

definition serializeBlock :: "block \<Rightarrow> string" where
  "serializeBlock b =
     (case b of
        FilterBlock col op v raw \<Rightarrow> col @ '':'' @ (if op = ''='' then [] else op) @ v
      | FulltextBlock v raw \<Rightarrow> v)"

definition serializeBlocks :: "block list \<Rightarrow> string" where
  "serializeBlocks blocks = joinWith '' '' (map serializeBlock blocks)"

text \<open>
  The well-formed expressions of the grammar \<open>expr := token (' ' token)*\<close>,
  \<open>token := column ':' operator? value | word\<close>: tokens separated by one blank each, a token
  being a word without white space or colon, or a column of word characters, a colon and a
  value without white space. The value does not start with \<open>=\<close> or \<open>~\<close>, the two operator
  prefixes that can be written in two ways (\<open>=\<close> or nothing, \<open>~\<close> or \<open>LIKE\<close>).
\<close>

definition wellFormedToken :: "string \<Rightarrow> bool" where
  "wellFormedToken t =
     (let key = takeWhile isWordChar t; rest = dropWhile isWordChar t
      in if rest \<noteq> [] \<and> hd rest = CHR '':''
         then key \<noteq> [] \<and> tl rest \<noteq> [] \<and> list_all notSpace (tl rest)
              \<and> \<not> startsWith (tl rest) ''='' \<and> \<not> startsWith (tl rest) ''~''
         else t \<noteq> [] \<and> list_all wordPart t)"

definition wellFormed :: "string \<Rightarrow> bool" where
  "wellFormed x = (x = [] \<or> list_all wellFormedToken (splitOn CHR '' '' x))"

text \<open>
  \<open>applyBlocks\<close>: a filter block becomes one filter entry whose value is the block's text; a
  full-text block becomes a \<open>LIKE\<close> entry for every column of type string.
\<close>

definition entriesOfBlock :: "schema \<Rightarrow> block \<Rightarrow> filterEntry list" where
  "entriesOfBlock sch b =
     (case b of
        FilterBlock col op v raw \<Rightarrow>
          [\<lparr>eColumn = col, eOperator = op, eValue = JStr v, eEnabled = True, eMode = None\<rparr>]
      | FulltextBlock v raw \<Rightarrow>
          map (\<lambda>c. \<lparr>eColumn = fst c, eOperator = ''LIKE'', eValue = JStr (''%'' @ v @ ''%''),
                     eEnabled = True, eMode = None\<rparr>)
            (filter (\<lambda>c. snd c = ''string'') (schemaColumns sch)))"

definition applyBlocks :: "schema \<Rightarrow> block list \<Rightarrow> filterEntry list" where
  "applyBlocks sch blocks = concat (map (entriesOfBlock sch) blocks)"

section \<open>DuckDBWasmProvider\<close>

text \<open>
  The provider's schema as \<open>getSchema\<close> builds it from the engine's \<open>DESCRIBE\<close> rows: the
  columns \<open>{name, type}\<close> and the object \<open>types\<close>, keyed by the name as a property key.
  \<open>columnSet\<close> is \<open>null\<close> until the schema is read. The engine is a parameter: what
  \<open>conn.query(sql).toArray()\<close> returns for a statement, or the error it throws.
\<close>

record duckSchema =
  dColumns :: "(jsval \<times> jsval) list"
  dTypes :: row

record duckProvider =
  dTable :: string
  dSchema :: duckSchema
  columnSet :: "jsval list option"

type_synonym engine = "string \<Rightarrow> error + row list"

definition bindE :: "error + 'a \<Rightarrow> ('a \<Rightarrow> error + 'b) \<Rightarrow> error + 'b" where
  "bindE m f = (case m of Inl e \<Rightarrow> Inl e | Inr x \<Rightarrow> f x)"

text \<open>\<open>xs.map(f)\<close> where \<open>f\<close> can throw: the first error ends the loop.\<close>

fun mapE :: "('a \<Rightarrow> error + 'b) \<Rightarrow> 'a list \<Rightarrow> error + 'b list" where
  "mapE f [] = Inr []"
| "mapE f (x # xs) = bindE (f x) (\<lambda>y. bindE (mapE f xs) (\<lambda>ys. Inr (y # ys)))"

definition dquote :: char where
  "dquote = CHR 0x22"

definition squote :: char where
  "squote = CHR 0x27"

definition quoteIdentifier :: "string \<Rightarrow> string" where
  "quoteIdentifier name =
     [dquote] @ concat (map (\<lambda>c. if c = dquote then [dquote, dquote] else [c]) name) @ [dquote]"

definition isDigit :: "char \<Rightarrow> bool" where
  "isDigit c = (let n = of_char c :: nat in 48 \<le> n \<and> n \<le> 57)"

definition getTableIdentifier :: "duckProvider \<Rightarrow> error + string" where
  "getTableIdentifier p =
     (let tableName = (if dTable p = [] then ''data'' else dTable p)
      in if \<not> (tableName \<noteq> [] \<and> list_all isWordChar tableName) \<or> isDigit (hd tableName)
         then Inl (InvalidTableName tableName)
         else Inr (quoteIdentifier tableName))"

definition getSchema :: "engine \<Rightarrow> duckProvider \<Rightarrow> error + duckProvider" where
  "getSchema eng p =
     (if dColumns (dSchema p) \<noteq> [] then Inr p
      else
        bindE (getTableIdentifier p) (\<lambda>tableName.
        bindE (eng (''DESCRIBE '' @ tableName)) (\<lambda>rows.
          let cols = map (\<lambda>r. (jsOr (getField r ''column_name'') (getField r ''name''),
                               jsOr (getField r ''column_type'') (getField r ''type''))) rows;
              tys = foldl (\<lambda>t c. setField t (toString (fst c)) (snd c)) [] cols
          in Inr (p\<lparr>dSchema := \<lparr>dColumns = cols, dTypes = tys\<rparr>,
                    columnSet := Some (map fst cols)\<rparr>))))"

definition ensureSchema :: "engine \<Rightarrow> duckProvider \<Rightarrow> error + duckProvider" where
  "ensureSchema eng p = (if dColumns (dSchema p) = [] then getSchema eng p else Inr p)"

definition assertColumn :: "duckProvider \<Rightarrow> string \<Rightarrow> error + string" where
  "assertColumn p columnName =
     (case columnSet p of
        None \<Rightarrow> Inl SchemaNotLoaded
      | Some cs \<Rightarrow>
          if dColumns (dSchema p) = [] then Inl SchemaNotLoaded
          else if \<not> arrIncludes cs (JStr columnName) then Inl (UnknownColumn columnName)
          else Inr (quoteIdentifier columnName))"

text \<open>The column name is in the column set of the loaded schema: \<open>columnSet.has(c)\<close>.\<close>

definition knownColumn :: "duckProvider \<Rightarrow> string \<Rightarrow> bool" where
  "knownColumn p c = (case columnSet p of None \<Rightarrow> False | Some cs \<Rightarrow> arrIncludes cs (JStr c))"

text \<open>
  A result that is one of the two errors of \<open>assertColumn\<close>: the schema is not loaded, or a
  column that is not in the column set.
\<close>

definition columnRejected :: "duckProvider \<Rightarrow> error + 'a \<Rightarrow> bool" where
  "columnRejected p r =
     (case r of
        Inl SchemaNotLoaded \<Rightarrow> True
      | Inl (UnknownColumn c) \<Rightarrow> \<not> knownColumn p c
      | _ \<Rightarrow> False)"

fun escapeValue :: "jsval \<Rightarrow> string" where
  "escapeValue JUndefined = ''NULL''"
| "escapeValue JNull = ''NULL''"
| "escapeValue (JNum n) = stringOfInt n"
| "escapeValue (JBool b) = (if b then ''TRUE'' else ''FALSE'')"
| "escapeValue (JArr xs) = ''('' @ joinWith '', '' (map escapeValue xs) @ '')''"
| "escapeValue (JStr s) =
     [squote] @ concat (map (\<lambda>c. if c = squote then [squote, squote] else [c]) s) @ [squote]"

definition isListColumn :: "duckProvider \<Rightarrow> string \<Rightarrow> bool" where
  "isListColumn p columnName =
     (let ty = getField (dTypes (dSchema p)) columnName
      in if \<not> truthy ty then False
         else let normalized = toLowerCase (toString ty)
              in strIncludes normalized ''list'' \<or> strIncludes normalized ''[]'')"

definition buildInAllClause :: "duckProvider \<Rightarrow> string \<Rightarrow> jsval \<Rightarrow> error + string" where
  "buildInAllClause p columnName vals =
     bindE (assertColumn p columnName) (\<lambda>col.
       case vals of
         JArr vs \<Rightarrow>
           if vs = [] then Inr ''FALSE''
           else if isListColumn p columnName then
             Inr (joinWith '' AND ''
                    (map (\<lambda>v. ''list_contains('' @ col @ '', '' @ escapeValue v @ '')'') vs))
           else if length vs = 1 then Inr (col @ '' = '' @ escapeValue (hd vs))
           else Inr ''FALSE''
       | _ \<Rightarrow> Inr ''FALSE'')"

text \<open>The clause of one filter: the body of the \<open>map\<close> in \<open>buildWhereClause\<close>.\<close>

definition filterClause :: "duckProvider \<Rightarrow> canonicalFilter \<Rightarrow> error + string" where
  "filterClause p f =
     (let op = toUpperCase (if operator f = [] then ''='' else operator f)
      in bindE (assertColumn p (column f)) (\<lambda>col.
           let v = escapeValue (fvalue f)
           in if op \<in> set [''='', ''!='', ''>'', ''<'', ''>='', ''<='']
              then Inr (col @ '' '' @ op @ '' '' @ v)
              else if op = ''LIKE'' then Inr (col @ '' LIKE '' @ v)
              else if op = ''ILIKE'' \<or> op = ''IN'' then
                (case fvalue f of
                   JArr vs \<Rightarrow>
                     if vs = [] then Inr ''FALSE''
                     else Inr (col @ '' IN ('' @ joinWith '', '' (map escapeValue vs) @ '')'')
                 | _ \<Rightarrow> Inr (col @ '' = '' @ v))
              else if op = ''IN_ALL'' then buildInAllClause p (column f) (fvalue f)
              else if op = ''BETWEEN'' then
                (case fvalue f of
                   JArr vs \<Rightarrow>
                     if 2 \<le> length vs
                     then Inr (col @ '' BETWEEN '' @ escapeValue (arrAt vs 0) @ '' AND ''
                               @ escapeValue (arrAt vs 1))
                     else Inr ''FALSE''
                 | _ \<Rightarrow> Inr ''FALSE'')
              else if op = ''IS NULL'' then Inr (col @ '' IS NULL'')
              else if op = ''IS NOT NULL'' then Inr (col @ '' IS NOT NULL'')
              else Inr (col @ '' = '' @ v)))"

definition buildWhereClause :: "duckProvider \<Rightarrow> canonicalFilter list \<Rightarrow> error + string" where
  "buildWhereClause p fs =
     (if fs = [] then Inr []
      else bindE (mapE (filterClause p) fs) (\<lambda>clauses.
             Inr (''WHERE '' @ joinWith '' AND '' clauses)))"

definition orderTerm :: "duckProvider \<Rightarrow> sortRule \<Rightarrow> error + string" where
  "orderTerm p rule =
     bindE (assertColumn p (sortColumn rule)) (\<lambda>col.
       Inr (col @ '' '' @ (if toUpperCase (direction rule) = ''DESC'' then ''DESC'' else ''ASC'')))"

definition buildOrderClause :: "duckProvider \<Rightarrow> sortRule list \<Rightarrow> error + string" where
  "buildOrderClause p rules =
     (if rules = [] then Inr []
      else bindE (mapE (orderTerm p) rules) (\<lambda>clauses.
             Inr (''ORDER BY '' @ joinWith '', '' clauses)))"

definition buildPaginationClause :: "pagination option \<Rightarrow> string" where
  "buildPaginationClause pg =
     (case pg of
        None \<Rightarrow> []
      | Some q \<Rightarrow>
          (case limit q of
             None \<Rightarrow> []
           | Some lim \<Rightarrow>
               ''LIMIT '' @ stringOfInt lim @ '' OFFSET ''
               @ stringOfInt (case offset q of None \<Rightarrow> 0 | Some off \<Rightarrow> off)))"

definition buildSelectClause :: "duckProvider \<Rightarrow> error + string" where
  "buildSelectClause p =
     bindE (getTableIdentifier p) (\<lambda>tableName.
       Inr (''SELECT rowid AS '' @ [dquote] @ ''__rowid'' @ [dquote] @ '', * FROM '' @ tableName))"

text \<open>\<open>[...].filter(Boolean).join(' ')\<close>: the empty clauses are left out.\<close>

definition joinClauses :: "string list \<Rightarrow> string" where
  "joinClauses cs = joinWith '' '' (filter (\<lambda>c. c \<noteq> []) cs)"

definition queryCount :: "engine \<Rightarrow> duckProvider \<Rightarrow> string \<Rightarrow> error + jsval" where
  "queryCount eng p whereClause =
     bindE (getTableIdentifier p) (\<lambda>tableName.
     bindE (eng (joinClauses [''SELECT COUNT(*) AS count FROM '' @ tableName, whereClause])) (\<lambda>rows.
       Inr (case rows of [] \<Rightarrow> JNum 0 | r # _ \<Rightarrow> jsOr (getField r ''count'') (JNum 0))))"

definition duckQuery ::
  "engine \<Rightarrow> duckProvider \<Rightarrow> transformState \<Rightarrow> error + duckProvider \<times> duckSchema queryResult" where
  "duckQuery eng p t =
     bindE (ensureSchema eng p) (\<lambda>p1.
     bindE (buildWhereClause p1 (filters t)) (\<lambda>whereClause.
     bindE (buildOrderClause p1 (sortRules t)) (\<lambda>orderClause.
     bindE (buildSelectClause p1) (\<lambda>selectClause.
     bindE (eng (joinClauses [selectClause, whereClause, orderClause,
                              buildPaginationClause (pageOf t)])) (\<lambda>rows.
     bindE (queryCount eng p1 whereClause) (\<lambda>total.
       Inr (p1, \<lparr>resultData = rows, totalCount = total, resultSchema = dSchema p1\<rparr>)))))))"

section \<open>Example data\<close>

text \<open>
  A host for the examples: a string of decimal digits is that number, and no text is a date.
\<close>

definition digitsValue :: "string \<Rightarrow> nat" where
  "digitsValue s = foldl (\<lambda>a c. 10 * a + (of_char c - 48)) 0 s"

definition sampleHost :: host where
  "sampleHost =
     \<lparr>numberOfString = (\<lambda>s. if list_all isDigit s then Some (int (digitsValue s)) else None),
      dateParses = (\<lambda>s. False)\<rparr>"

definition sampleRows :: "row list" where
  "sampleRows =
     [[(''id'', JNum 1), (''name'', JStr ''Alice''), (''department'', JStr ''Engineering > Backend''),
       (''active'', JBool True), (''__rowid'', JStr ''row_0_0'')],
      [(''id'', JNum 2), (''name'', JStr ''Bob''), (''department'', JStr ''HR''),
       (''active'', JBool False), (''__rowid'', JStr ''row_1_0'')],
      [(''id'', JNum 3), (''name'', JStr ''Carol''), (''department'', JStr ''Engineering > Frontend''),
       (''active'', JBool True), (''__rowid'', JStr ''row_2_0'')]]"

definition sampleProvider :: nativeProvider where
  "sampleProvider = \<lparr>nData = sampleRows, nSchema = inferSchema sampleHost sampleRows\<rparr>"

text \<open>
  An engine holding the same three rows in the table \<open>data\<close>. It answers the \<open>DESCRIBE\<close>, the
  unfiltered \<open>SELECT\<close> and the unfiltered \<open>COUNT\<close>; any other statement is an engine error.
\<close>

definition sampleEngine :: engine where
  "sampleEngine sql =
     (if sql = ''DESCRIBE '' @ quoteIdentifier ''data'' then
        Inr [[(''column_name'', JStr ''id''), (''column_type'', JStr ''BIGINT'')],
             [(''column_name'', JStr ''name''), (''column_type'', JStr ''VARCHAR'')],
             [(''column_name'', JStr ''department''), (''column_type'', JStr ''VARCHAR'')],
             [(''column_name'', JStr ''active''), (''column_type'', JStr ''BOOLEAN'')]]
      else if sql = ''SELECT rowid AS '' @ quoteIdentifier ''__rowid'' @ '', * FROM ''
                    @ quoteIdentifier ''data'' then
        Inr [[(''__rowid'', JNum 0), (''id'', JNum 1), (''name'', JStr ''Alice''),
              (''department'', JStr ''Engineering > Backend''), (''active'', JBool True)],
             [(''__rowid'', JNum 1), (''id'', JNum 2), (''name'', JStr ''Bob''),
              (''department'', JStr ''HR''), (''active'', JBool False)],
             [(''__rowid'', JNum 2), (''id'', JNum 3), (''name'', JStr ''Carol''),
              (''department'', JStr ''Engineering > Frontend''), (''active'', JBool True)]]
      else if sql = ''SELECT COUNT(*) AS count FROM '' @ quoteIdentifier ''data'' then
        Inr [[(''count'', JNum 3)]]
      else Inl (EngineError sql))"

text \<open>The SQL provider before and after \<open>getSchema\<close> on that engine.\<close>

definition freshDuck :: duckProvider where
  "freshDuck = \<lparr>dTable = ''data'', dSchema = \<lparr>dColumns = [], dTypes = []\<rparr>, columnSet = None\<rparr>"

definition sampleDuck :: duckProvider where
  "sampleDuck =
     \<lparr>dTable = ''data'',
      dSchema = \<lparr>dColumns = [(JStr ''id'', JStr ''BIGINT''), (JStr ''name'', JStr ''VARCHAR''),
                            (JStr ''department'', JStr ''VARCHAR''), (JStr ''active'', JStr ''BOOLEAN'')],
                 dTypes = [(''id'', JStr ''BIGINT''), (''name'', JStr ''VARCHAR''),
                           (''department'', JStr ''VARCHAR''), (''active'', JStr ''BOOLEAN'')]\<rparr>,
      columnSet = Some [JStr ''id'', JStr ''name'', JStr ''department'', JStr ''active'']\<rparr>"

definition nopeFilter :: canonicalFilter where
  "nopeFilter = \<lparr>column = ''nope'', operator = ''='', fvalue = JStr ''x'', mode = None, columns = None\<rparr>"

definition tagEntry :: "string \<Rightarrow> string \<Rightarrow> jsval \<Rightarrow> string option \<Rightarrow> filterEntry" where
  "tagEntry col op v m = \<lparr>eColumn = col, eOperator = op, eValue = v, eEnabled = True, eMode = m\<rparr>"

definition sampleState :: "filterEntry list \<Rightarrow> specState" where
  "sampleState es = \<lparr>sFilters = es, sSort = [], sPagination = \<lparr>page = JNum 1, pageSize = JNum 50\<rparr>\<rparr>"

definition emptyTransform :: transformState where
  "emptyTransform = \<lparr>filters = [], sortRules = [], pageOf = None\<rparr>"

section \<open>Properties\<close>

subsection \<open>Lists and sorting\<close>

lemma length_insertBy: "length (insertBy cmp x ys) = Suc (length ys)"
  by (induction ys) simp_all

lemma length_sortBy: "length (sortBy cmp xs) = length xs"
  by (induction xs) (simp_all add: sortBy_def length_insertBy)

lemma length_applySorting: "length (applySorting h rows rules) = length rows"
  by (simp add: applySorting_def length_sortBy)

subsection \<open>An unrecognized operator\<close>

lemma checkCondition_unrecognized:
  "op \<notin> set recognizedOperators \<Longrightarrow> checkCondition h v op fv"
  by (simp add: recognizedOperators_def checkCondition_def)

lemma matchesFilters_Cons:
  "matchesFilters h r (f # fs) = (matchesFilter h r f \<and> matchesFilters h r fs)"
  by (simp add: matchesFilters_def)

lemma matchesFilters_append:
  "matchesFilters h r (fs @ gs) = (matchesFilters h r fs \<and> matchesFilters h r gs)"
  by (simp add: matchesFilters_def)

lemma matchesFilter_unrecognized:
  assumes "operator f \<notin> set recognizedOperators" and "columns f \<noteq> Some []"
  shows "matchesFilter h r f"
proof (cases "columns f")
  case None
  then show ?thesis using assms(1) by (simp add: matchesFilter_def checkCondition_unrecognized)
next
  case (Some cols)
  with assms(2) obtain c cs where "cols = c # cs" by (cases cols) auto
  with Some show ?thesis using assms(1)
    by (simp add: matchesFilter_def checkCondition_unrecognized)
qed

lemma filteredRows_drop_filter:
  assumes "\<And>r. matchesFilter h r f"
  shows "filteredRows h rows (t\<lparr>filters := fs @ f # gs\<rparr>) = filteredRows h rows (t\<lparr>filters := fs @ gs\<rparr>)"
proof -
  have "matchesFilters h r (fs @ f # gs) = matchesFilters h r (fs @ gs)" for r
    using assms by (simp add: matchesFilters_append matchesFilters_Cons)
  moreover have "filter (\<lambda>r. matchesFilters h r []) rows = rows"
    by (simp add: matchesFilters_def)
  ultimately show ?thesis
    by (cases "fs @ gs = []") (simp_all add: filteredRows_def Let_def)
qed

text \<open>
  C6. A filter whose operator is not one of the recognized ones is true of every record:
  \<open>checkCondition\<close> returns true whatever the field and the filter value are, the filter
  matches every row, and a query with such a filter anywhere in its filter list returns the
  same result as the query without it. The query is a total function, so it returns a
  result. (A filter that carries an empty \<open>columns\<close> list is true of no row, whatever its
  operator; a canonical filter has no such list.)
\<close>

theorem unrecognized_operator_is_pass_through:
  assumes "operator f \<notin> set recognizedOperators" and "columns f \<noteq> Some []"
  shows "checkCondition h v (operator f) fv
       \<and> matchesFilter h r f
       \<and> nativeQuery h p (t\<lparr>filters := fs @ f # gs\<rparr>) = nativeQuery h p (t\<lparr>filters := fs @ gs\<rparr>)"
proof -
  have m: "matchesFilter h r' f" for r'
    using assms by (rule matchesFilter_unrecognized)
  have "filteredRows h (nData p) (t\<lparr>filters := fs @ f # gs\<rparr>)
          = filteredRows h (nData p) (t\<lparr>filters := fs @ gs\<rparr>)"
    using m by (rule filteredRows_drop_filter)
  then have "nativeQuery h p (t\<lparr>filters := fs @ f # gs\<rparr>) = nativeQuery h p (t\<lparr>filters := fs @ gs\<rparr>)"
    by (simp add: nativeQuery_def Let_def)
  with m assms(1) show ?thesis
    by (simp add: checkCondition_unrecognized)
qed

theorem unrecognized_operator_is_pass_through_witness:
  "operator (nopeFilter\<lparr>column := ''name'', operator := ''INVALID_OP''\<rparr>) \<notin> set recognizedOperators
   \<and> columns (nopeFilter\<lparr>column := ''name'', operator := ''INVALID_OP''\<rparr>) \<noteq> Some []
   \<and> checkCondition sampleHost (JStr ''Bob'') ''INVALID_OP'' (JStr ''x'')
   \<and> nativeQuery sampleHost sampleProvider
        \<lparr>filters = [nopeFilter\<lparr>column := ''name'', operator := ''INVALID_OP''\<rparr>], sortRules = [], pageOf = None\<rparr>
      = nativeQuery sampleHost sampleProvider \<lparr>filters = [], sortRules = [], pageOf = None\<rparr>
   \<and> resultData (nativeQuery sampleHost sampleProvider \<lparr>filters = [], sortRules = [], pageOf = None\<rparr>)
      = sampleRows"
proof -
  have a: "operator (nopeFilter\<lparr>column := ''name'', operator := ''INVALID_OP''\<rparr>) \<notin> set recognizedOperators"
    by (simp add: nopeFilter_def recognizedOperators_def)
  have b: "columns (nopeFilter\<lparr>column := ''name'', operator := ''INVALID_OP''\<rparr>) \<noteq> Some []"
    by (simp add: nopeFilter_def)
  have c: "resultData (nativeQuery sampleHost sampleProvider \<lparr>filters = [], sortRules = [], pageOf = None\<rparr>)
      = sampleRows"
    by (simp add: nativeQuery_def filteredRows_def sampleProvider_def)
  from unrecognized_operator_is_pass_through [OF a b, where h = sampleHost and v = "JStr ''Bob''"
      and fv = "JStr ''x''" and p = sampleProvider
      and t = "\<lparr>filters = [], sortRules = [], pageOf = None\<rparr>" and fs = "[]" and gs = "[]"] a b c
  show ?thesis by simp
qed

subsection \<open>Strict equality\<close>

lemma applyBlocks_values:
  assumes "e \<in> set (applyBlocks sch blocks)"
  shows "\<exists>s. eValue e = JStr s"
proof -
  from assms obtain b where "e \<in> set (entriesOfBlock sch b)"
    by (auto simp: applyBlocks_def)
  then show ?thesis
    by (cases b) (auto simp: entriesOfBlock_def)
qed

text \<open>
  C10. The \<open>=\<close> and \<open>!=\<close> predicates compare a scalar field with \<open>===\<close>: when the field
  \<open>c\<close> of a record holds the number \<open>n\<close>, the filter \<open>c = s\<close> with the decimal string \<open>s\<close> of
  \<open>n\<close> does not match the record and the filter \<open>c != s\<close> does. Every filter entry that
  \<open>applyBlocks\<close> builds from a parsed expression has a string value, so such an entry on the
  column \<open>c\<close> with the operator \<open>=\<close>, passed through to the transform, does not match the
  record.
\<close>

theorem equality_is_strict:
  assumes "getField r c = JNum n"
  shows "\<not> matchesFilter h r
            \<lparr>column = c, operator = ''='', fvalue = JStr (stringOfInt n), mode = None, columns = None\<rparr>
       \<and> matchesFilter h r
            \<lparr>column = c, operator = ''!='', fvalue = JStr (stringOfInt n), mode = None, columns = None\<rparr>
       \<and> (\<forall>e \<in> set (applyBlocks sch (parseExpression x)).
            eColumn e = c \<and> eOperator e = ''='' \<longrightarrow>
              \<not> matchesFilter h r (groupToFilter (eColumn e, e, [])))"
proof -
  have s: "\<not> checkCondition h (JNum n) ''='' (JStr s) \<and> checkCondition h (JNum n) ''!='' (JStr s)" for s
    by (simp add: checkCondition_def)
  have "\<not> matchesFilter h r (groupToFilter (eColumn e, e, []))"
    if "e \<in> set (applyBlocks sch (parseExpression x))" and "eColumn e = c" and "eOperator e = ''=''" for e
  proof -
    from that(1) obtain v where "eValue e = JStr v"
      using applyBlocks_values by blast
    with that(2,3) assms s [of v] show ?thesis
      by (simp add: matchesFilter_def groupToFilter_def)
  qed
  with assms s [of "stringOfInt n"] show ?thesis
    by (auto simp: matchesFilter_def)
qed

lemma parse_id: "parseExpression ''id:1'' = [FilterBlock ''id'' ''='' ''1'' ''id:1'']"
  by code_simp

theorem equality_is_strict_witness:
  "getField (hd sampleRows) ''id'' = JNum 1
   \<and> stringOfInt 1 = ''1''
   \<and> applyBlocks emptySchema (parseExpression ''id:1'')
       = [\<lparr>eColumn = ''id'', eOperator = ''='', eValue = JStr ''1'', eEnabled = True, eMode = None\<rparr>]
   \<and> \<not> matchesFilter sampleHost (hd sampleRows)
          \<lparr>column = ''id'', operator = ''='', fvalue = JStr ''1'', mode = None, columns = None\<rparr>
   \<and> matchesFilter sampleHost (hd sampleRows)
          \<lparr>column = ''id'', operator = ''!='', fvalue = JStr ''1'', mode = None, columns = None\<rparr>"
proof -
  have g: "getField (hd sampleRows) ''id'' = JNum 1"
    by (simp add: sampleRows_def getField_def)
  have a: "applyBlocks emptySchema (parseExpression ''id:1'')
     = [\<lparr>eColumn = ''id'', eOperator = ''='', eValue = JStr ''1'', eEnabled = True, eMode = None\<rparr>]"
    by (simp add: parse_id applyBlocks_def entriesOfBlock_def)
  have b: "stringOfInt 1 = ''1''" by code_simp
  from equality_is_strict [OF g, of sampleHost emptySchema "''id:1''"] g a b show ?thesis
    by simp
qed

subsection \<open>Mutations of a row that is not there\<close>

lemma find_None_list_ex: "find P xs = None \<longleftrightarrow> \<not> list_ex P xs"
  by (induction xs) simp_all

text \<open>
  C5, as amended. When no row has the identifier, \<open>updateCell\<close> throws the not-found error,
  while \<open>deleteRow\<close> and \<open>duplicateRow\<close> return without an error and leave the provider as it
  was.
\<close>

theorem missing_row_mutations:
  assumes "\<not> list_ex (hasRowId rowId) (nData p)"
  shows "updateCell h p rowId col v = Inl (RowNotFound rowId)
       \<and> deleteRow p rowId = Inr p
       \<and> duplicateRow now p rowId = Inr p"
proof -
  from assms have f: "find (hasRowId rowId) (nData p) = None"
    by (simp add: find_None_list_ex)
  from assms have "filter (\<lambda>r. \<not> hasRowId rowId r) (nData p) = nData p"
    by (simp add: list_ex_iff)
  with f show ?thesis
    by (simp add: updateCell_def deleteRow_def duplicateRow_def)
qed

theorem missing_row_mutations_witness:
  "\<not> list_ex (hasRowId (JStr ''row_9_0'')) (nData sampleProvider)
   \<and> updateCell sampleHost sampleProvider (JStr ''row_9_0'') ''name'' (JStr ''Dan'')
       = Inl (RowNotFound (JStr ''row_9_0''))
   \<and> deleteRow sampleProvider (JStr ''row_9_0'') = Inr sampleProvider
   \<and> duplicateRow 0 sampleProvider (JStr ''row_9_0'') = Inr sampleProvider"
proof -
  have h: "\<not> list_ex (hasRowId (JStr ''row_9_0'')) (nData sampleProvider)"
    by (simp add: sampleProvider_def sampleRows_def hasRowId_def getField_def)
  from h missing_row_mutations [OF h, of sampleHost "''name''" "JStr ''Dan''" 0]
  show ?thesis by simp
qed

text \<open>
  The claim as stated fails for \<open>deleteRow\<close> and \<open>duplicateRow\<close>: on a dataset of one row and an
  identifier that is not in it, both return normally, with the dataset unchanged.
\<close>

theorem deleteRow_missing_counterexample:
  "deleteRow \<lparr>nData = [[(''__rowid'', JStr ''row_0_0''), (''name'', JStr ''Alice'')]], nSchema = emptySchema\<rparr>
      (JStr ''row_9_0'')
     = Inr \<lparr>nData = [[(''__rowid'', JStr ''row_0_0''), (''name'', JStr ''Alice'')]], nSchema = emptySchema\<rparr>
   \<and> duplicateRow 0 \<lparr>nData = [[(''__rowid'', JStr ''row_0_0''), (''name'', JStr ''Alice'')]], nSchema = emptySchema\<rparr>
      (JStr ''row_9_0'')
     = Inr \<lparr>nData = [[(''__rowid'', JStr ''row_0_0''), (''name'', JStr ''Alice'')]], nSchema = emptySchema\<rparr>"
  by (simp add: deleteRow_def duplicateRow_def hasRowId_def getField_def)

subsection \<open>Pagination\<close>

lemma length_filteredRows:
  "length (filteredRows h rows t) = length (filter (\<lambda>r. matchesFilters h r (filters t)) rows)"
proof -
  have "filter (\<lambda>r. matchesFilters h r []) rows = rows"
    by (simp add: matchesFilters_def)
  then show ?thesis
    by (cases "filters t = []") (simp_all add: filteredRows_def Let_def length_applySorting)
qed

lemma jsSlice_nonneg:
  assumes "0 \<le> off" and "0 \<le> lim"
  shows "jsSlice xs off (off + lim) = take (nat lim) (drop (nat off) xs)"
proof (cases "off \<le> int (length xs)")
  case True
  show ?thesis
  proof (cases "off + lim \<le> int (length xs)")
    case True
    with assms \<open>off \<le> int (length xs)\<close> show ?thesis
      by (simp add: jsSlice_def Let_def min_def)
  next
    case False
    with assms True have "length (drop (nat off) xs) \<le> nat lim"
      by simp
    with assms True False show ?thesis
      by (simp add: jsSlice_def Let_def min_def)
  qed
next
  case False
  with assms show ?thesis
    by (simp add: jsSlice_def Let_def min_def)
qed

text \<open>
  C8. With a limit and an offset that are not negative, \<open>totalCount\<close> is the number of rows
  that pass the filters, the data are the rows \<open>[offset, offset + limit)\<close> of the filtered and
  sorted rows (as far as there are any), an offset at or past their end gives no data, and
  \<open>totalCount\<close> is what it is without pagination.
\<close>

theorem pagination_slices_filtered_rows:
  assumes "pageOf t = Some \<lparr>limit = Some lim, offset = Some off\<rparr>"
    and "0 \<le> off" and "0 \<le> lim"
  shows "totalCount (nativeQuery h p t)
           = JNum (int (length (filter (\<lambda>r. matchesFilters h r (filters t)) (nData p))))
       \<and> resultData (nativeQuery h p t)
           = take (nat lim) (drop (nat off) (filteredRows h (nData p) t))
       \<and> (int (length (filteredRows h (nData p) t)) \<le> off \<longrightarrow> resultData (nativeQuery h p t) = [])
       \<and> totalCount (nativeQuery h p t) = totalCount (nativeQuery h p (t\<lparr>pageOf := None\<rparr>))"
proof -
  have f: "filteredRows h (nData p) (t\<lparr>pageOf := None\<rparr>) = filteredRows h (nData p) t"
    by (simp add: filteredRows_def Let_def)
  have d: "resultData (nativeQuery h p t) = jsSlice (filteredRows h (nData p) t) off (off + lim)"
    using assms(1) by (simp add: nativeQuery_def Let_def)
  have c: "totalCount (nativeQuery h p t) = JNum (int (length (filteredRows h (nData p) t)))"
    by (simp add: nativeQuery_def Let_def)
  have c': "totalCount (nativeQuery h p (t\<lparr>pageOf := None\<rparr>)) = JNum (int (length (filteredRows h (nData p) t)))"
    by (simp add: nativeQuery_def Let_def f)
  from d assms(2,3) have e: "resultData (nativeQuery h p t)
           = take (nat lim) (drop (nat off) (filteredRows h (nData p) t))"
    by (simp add: jsSlice_nonneg)
  from c c' e assms(2) show ?thesis
    by (simp add: length_filteredRows)
qed

theorem pagination_slices_filtered_rows_witness:
  "pageOf \<lparr>filters = [nopeFilter\<lparr>column := ''active'', fvalue := JBool True\<rparr>], sortRules = [],
           pageOf = Some \<lparr>limit = Some 50, offset = Some 49900\<rparr>\<rparr>
     = Some \<lparr>limit = Some 50, offset = Some 49900\<rparr>
   \<and> (0::int) \<le> 49900 \<and> (0::int) \<le> 50
   \<and> totalCount (nativeQuery sampleHost sampleProvider
        \<lparr>filters = [nopeFilter\<lparr>column := ''active'', fvalue := JBool True\<rparr>], sortRules = [],
         pageOf = Some \<lparr>limit = Some 50, offset = Some 49900\<rparr>\<rparr>) = JNum 2
   \<and> resultData (nativeQuery sampleHost sampleProvider
        \<lparr>filters = [nopeFilter\<lparr>column := ''active'', fvalue := JBool True\<rparr>], sortRules = [],
         pageOf = Some \<lparr>limit = Some 50, offset = Some 49900\<rparr>\<rparr>) = []"
proof -
  have n: "filter (\<lambda>r. matchesFilters sampleHost r [nopeFilter\<lparr>column := ''active'', fvalue := JBool True\<rparr>])
             sampleRows = [sampleRows ! 0, sampleRows ! 2]"
    by (simp add: matchesFilters_def matchesFilter_def checkCondition_def nopeFilter_def
        sampleRows_def getField_def)
  from pagination_slices_filtered_rows [of
      "\<lparr>filters = [nopeFilter\<lparr>column := ''active'', fvalue := JBool True\<rparr>], sortRules = [],
        pageOf = Some \<lparr>limit = Some 50, offset = Some 49900\<rparr>\<rparr>" 50 49900 sampleHost sampleProvider] n
  show ?thesis
    by (simp add: sampleProvider_def filteredRows_def)
qed

subsection \<open>Hierarchy detection\<close>

lemma inferKey_other:
  "k \<noteq> key \<Longrightarrow> types (inferKey h sample sch k) key = types sch key
      \<and> hierarchy (inferKey h sample sch k) key = hierarchy sch key"
  by (simp add: inferKey_def Let_def split: jsval.splits)

lemma inferKey_hierarchy:
  assumes "\<not> startsWith key ''__''" and "getField sample key = JStr s" and "CHR ''>'' \<in> set s"
  shows "types (inferKey h sample sch key) key = Some ''hierarchy''
      \<and> hierarchy (inferKey h sample sch key) key = Some \<lparr>delimiter = ''>''\<rparr>"
  using assms by (simp add: inferKey_def Let_def)

lemma foldl_inferKey_hierarchy:
  assumes "\<not> startsWith key ''__''" and "getField sample key = JStr s" and "CHR ''>'' \<in> set s"
  shows "key \<in> set ks \<or> (types sch key = Some ''hierarchy'' \<and> hierarchy sch key = Some \<lparr>delimiter = ''>''\<rparr>) \<Longrightarrow>
         types (foldl (inferKey h sample) sch ks) key = Some ''hierarchy''
       \<and> hierarchy (foldl (inferKey h sample) sch ks) key = Some \<lparr>delimiter = ''>''\<rparr>"
proof (induction ks arbitrary: sch)
  case Nil
  then show ?case by simp
next
  case (Cons k ks)
  show ?case
  proof (cases "k = key")
    case True
    with assms have "types (inferKey h sample sch k) key = Some ''hierarchy''
      \<and> hierarchy (inferKey h sample sch k) key = Some \<lparr>delimiter = ''>''\<rparr>"
      by (simp add: inferKey_hierarchy)
    then show ?thesis using Cons.IH [of "inferKey h sample sch k"] by simp
  next
    case False
    with Cons.prems have "key \<in> set ks \<or> (types (inferKey h sample sch k) key = Some ''hierarchy''
        \<and> hierarchy (inferKey h sample sch k) key = Some \<lparr>delimiter = ''>''\<rparr>)"
      by (auto simp: inferKey_other)
    then show ?thesis using Cons.IH [of "inferKey h sample sch k"] by simp
  qed
qed

text \<open>
  In a dataset that is not empty, a column of the first row (a key that does not start with
  \<open>__\<close>) whose value is a string containing \<open>>\<close> has the type \<open>hierarchy\<close> in the schema's
  \<open>types\<close>, whatever \<open>inferType\<close> says of the value, and the entry \<open>{delimiter: '>'}\<close> in
  \<open>hierarchy\<close>.
\<close>

lemma hierarchy_in_types_and_hierarchy:
  assumes "key \<in> fst ` set sample" and "\<not> startsWith key ''__''"
    and "getField sample key = JStr s" and "CHR ''>'' \<in> set s"
  shows "types (inferSchema h (sample # others)) key = Some ''hierarchy''
       \<and> hierarchy (inferSchema h (sample # others)) key = Some \<lparr>delimiter = ''>''\<rparr>"
proof -
  from assms(1) have "key \<in> set (map fst sample)" by simp
  then show ?thesis
    using foldl_inferKey_hierarchy [OF assms(2,3,4), of "map fst sample" emptySchema h]
    by (simp add: inferSchema_def)
qed

lemma hierarchy_in_types_and_hierarchy_example:
  "''department'' \<in> fst ` set (hd sampleRows) \<and> \<not> startsWith ''department'' ''__''
   \<and> getField (hd sampleRows) ''department'' = JStr ''Engineering > Backend''
   \<and> CHR ''>'' \<in> set ''Engineering > Backend''
   \<and> types (inferSchema sampleHost sampleRows) ''department'' = Some ''hierarchy''
   \<and> hierarchy (inferSchema sampleHost sampleRows) ''department'' = Some \<lparr>delimiter = ''>''\<rparr>"
proof -
  have a: "''department'' \<in> fst ` set (hd sampleRows)" by (simp add: sampleRows_def)
  have b: "\<not> startsWith ''department'' ''__''" by simp
  have c: "getField (hd sampleRows) ''department'' = JStr ''Engineering > Backend''"
    by (simp add: sampleRows_def getField_def)
  have d: "CHR ''>'' \<in> set ''Engineering > Backend''" by simp
  have e: "sampleRows = hd sampleRows # tl sampleRows" by (simp add: sampleRows_def)
  from hierarchy_in_types_and_hierarchy [OF a b c d, of sampleHost "tl sampleRows"] a b c d e
  show ?thesis by simp
qed

text \<open>
  The entry of the column in the list \<open>columns\<close> is pushed before the hierarchy is detected: it
  keeps the type that \<open>inferType\<close> gives.
\<close>

lemma inferKey_columns_mono:
  "set (schemaColumns sch) \<subseteq> set (schemaColumns (inferKey h sample sch k))"
  by (auto simp: inferKey_def Let_def split: jsval.splits)

lemma foldl_inferKey_columns_mono:
  "set (schemaColumns sch) \<subseteq> set (schemaColumns (foldl (inferKey h sample) sch ks))"
proof (induction ks arbitrary: sch)
  case Nil
  then show ?case by simp
next
  case (Cons k ks)
  from inferKey_columns_mono [of sch h sample k] Cons [of "inferKey h sample sch k"]
  show ?case by auto
qed

lemma inferKey_columns_entry:
  "\<not> startsWith key ''__'' \<Longrightarrow>
     (key, inferType h (getField sample key)) \<in> set (schemaColumns (inferKey h sample sch key))"
  by (auto simp: inferKey_def Let_def split: jsval.splits)

lemma hierarchy_column_entry_keeps_inferred_type:
  assumes "key \<in> fst ` set sample" and "\<not> startsWith key ''__''"
  shows "(key, inferType h (getField sample key))
           \<in> set (schemaColumns (inferSchema h (sample # others)))"
proof -
  have "(key, inferType h (getField sample key))
           \<in> set (schemaColumns (foldl (inferKey h sample) sch ks))" if "key \<in> set ks" for ks sch
    using that
  proof (induction ks arbitrary: sch)
    case Nil
    then show ?case by simp
  next
    case (Cons k ks)
    show ?case
    proof (cases "k = key")
      case True
      with assms(2) have "(key, inferType h (getField sample key))
           \<in> set (schemaColumns (inferKey h sample sch k))"
        by (simp add: inferKey_columns_entry)
      with foldl_inferKey_columns_mono [of "inferKey h sample sch k" h sample ks]
      show ?thesis by auto
    next
      case False
      with Cons.prems have "key \<in> set ks" by simp
      from Cons.IH [OF this, of "inferKey h sample sch k"] show ?thesis by simp
    qed
  qed
  from this [of "map fst sample" emptySchema] assms(1) show ?thesis
    by (simp add: inferSchema_def)
qed


text \<open>
  C9. On the example rows the column \<open>department\<close>, whose first value
  \<open>Engineering > Backend\<close> is a string containing \<open>>\<close>, has the type \<open>hierarchy\<close> in \<open>types\<close>
  and the entry \<open>{delimiter: '>'}\<close> in \<open>hierarchy\<close>, but in the list \<open>columns\<close> of the same
  schema it is still classified \<open>string\<close>: there the hierarchy does not override the
  primitive type.
\<close>

theorem hierarchy_column_keeps_primitive_type:
  "schemaColumns (inferSchema sampleHost sampleRows)
     = [(''id'', ''number''), (''name'', ''string''), (''department'', ''string''),
        (''active'', ''boolean'')]
   \<and> types (inferSchema sampleHost sampleRows) ''department'' = Some ''hierarchy''
   \<and> hierarchy (inferSchema sampleHost sampleRows) ''department'' = Some \<lparr>delimiter = ''>''\<rparr>"
  by (simp add: inferSchema_def sampleRows_def inferKey_def inferType_def getField_def
      sampleHost_def emptySchema_def Let_def isDigit_def)

subsection \<open>Columns outside the schema\<close>

lemma getTableIdentifier_data: "dTable p = ''data'' \<Longrightarrow> getTableIdentifier p = Inr (quoteIdentifier ''data'')"
  by (simp add: getTableIdentifier_def Let_def isWordChar_def isDigit_def)

lemma getSchema_sample: "getSchema sampleEngine freshDuck = Inr sampleDuck"
  by (simp add: getSchema_def getTableIdentifier_data freshDuck_def sampleDuck_def Let_def
      bindE_def sampleEngine_def getField_def jsOr_def truthy_def)

lemma ensureSchema_sample: "ensureSchema sampleEngine freshDuck = Inr sampleDuck"
  using getSchema_sample by (simp add: ensureSchema_def freshDuck_def)

lemma assertColumn_eq:
  "assertColumn p c =
     (if columnSet p = None \<or> dColumns (dSchema p) = [] then Inl SchemaNotLoaded
      else if knownColumn p c then Inr (quoteIdentifier c)
      else Inl (UnknownColumn c))"
  by (auto simp: knownColumn_def assertColumn_def split: option.splits)

lemma assertColumn_Inl: "assertColumn p c = Inl e \<Longrightarrow> columnRejected p (Inl e :: error + 'a)"
  by (auto simp: assertColumn_eq columnRejected_def split: if_splits)

lemma assertColumn_Inr: "assertColumn p c = Inr q \<Longrightarrow> knownColumn p c \<and> q = quoteIdentifier c"
  by (auto simp: assertColumn_eq split: if_splits)

lemma assertColumn_unknown: "\<not> knownColumn p c \<Longrightarrow> \<exists>e. assertColumn p c = Inl e"
  by (simp add: assertColumn_eq)

lemma buildInAllClause_Inr:
  "assertColumn p c = Inr q \<Longrightarrow> \<exists>s. buildInAllClause p c v = Inr s"
  by (cases v) (simp_all add: buildInAllClause_def bindE_def)

lemma filterClause_Inl: "assertColumn p (column f) = Inl e \<Longrightarrow> filterClause p f = Inl e"
  by (simp add: filterClause_def Let_def bindE_def)

lemma filterClause_Inr:
  assumes "assertColumn p (column f) = Inr q"
  shows "\<exists>s. filterClause p f = Inr s"
proof -
  obtain s where "buildInAllClause p (column f) (fvalue f) = Inr s"
    using buildInAllClause_Inr [OF assms] by blast
  with assms show ?thesis
    by (cases "fvalue f") (simp_all add: filterClause_def Let_def bindE_def)
qed

lemma orderTerm_Inl: "assertColumn p (sortColumn r) = Inl e \<Longrightarrow> orderTerm p r = Inl e"
  by (simp add: orderTerm_def bindE_def)

lemma orderTerm_Inr: "assertColumn p (sortColumn r) = Inr q \<Longrightarrow> \<exists>s. orderTerm p r = Inr s"
  by (simp add: orderTerm_def bindE_def)

lemma mapE_Inr: "(\<And>x. x \<in> set xs \<Longrightarrow> \<exists>y. f x = Inr y) \<Longrightarrow> \<exists>ys. mapE f xs = Inr ys"
proof (induction xs)
  case Nil
  then show ?case by simp
next
  case (Cons x xs)
  then obtain y ys where "f x = Inr y" and "mapE f xs = Inr ys"
    by (metis list.set_intros)
  then show ?case by (simp add: bindE_def)
qed

lemma mapE_Inl:
  "x \<in> set xs \<Longrightarrow> f x = Inl e \<Longrightarrow> \<exists>x' e'. x' \<in> set xs \<and> f x' = Inl e' \<and> mapE f xs = Inl e'"
proof (induction xs)
  case Nil
  then show ?case by simp
next
  case (Cons a xs)
  show ?case
  proof (cases "f a")
    case (Inl e1)
    then show ?thesis by (auto simp: bindE_def)
  next
    case (Inr y)
    with Cons.prems have "x \<in> set xs" by auto
    from Cons.IH [OF this Cons.prems(2)] obtain x' e'
      where "x' \<in> set xs" "f x' = Inl e'" "mapE f xs = Inl e'" by blast
    with Inr show ?thesis by (auto simp: bindE_def)
  qed
qed

lemma buildWhereClause_known:
  assumes "list_all (\<lambda>f. knownColumn p (column f)) fs" and "dColumns (dSchema p) \<noteq> []"
  shows "\<exists>w. buildWhereClause p fs = Inr w"
proof -
  have "\<exists>y. filterClause p f = Inr y" if "f \<in> set fs" for f
  proof -
    from that assms(1) have k: "knownColumn p (column f)" by (simp add: list_all_iff)
    then have "columnSet p \<noteq> None" by (auto simp: knownColumn_def split: option.splits)
    with k assms(2) have "assertColumn p (column f) = Inr (quoteIdentifier (column f))"
      by (simp add: assertColumn_eq)
    then show ?thesis by (rule filterClause_Inr)
  qed
  then obtain ys where "mapE (filterClause p) fs = Inr ys"
    using mapE_Inr [of fs "filterClause p"] by blast
  then show ?thesis by (simp add: buildWhereClause_def bindE_def)
qed

lemma mapE_Inl_elem: "mapE f xs = Inl e \<Longrightarrow> \<exists>x\<in>set xs. f x = Inl e"
proof (induction xs)
  case Nil
  then show ?case by simp
next
  case (Cons a xs)
  then show ?case
    by (cases "f a"; cases "mapE f xs") (auto simp: bindE_def)
qed

lemma filterClause_Inl_rejected:
  assumes "filterClause p f = Inl e"
  shows "columnRejected p (Inl e :: error + 'a)"
proof (cases "assertColumn p (column f)")
  case (Inl a)
  with assms have "a = e" by (simp add: filterClause_Inl)
  with Inl show ?thesis using assertColumn_Inl by blast
next
  case (Inr q)
  with assms show ?thesis using filterClause_Inr [OF Inr] by auto
qed

lemma orderTerm_Inl_rejected:
  assumes "orderTerm p r = Inl e"
  shows "columnRejected p (Inl e :: error + 'a)"
proof (cases "assertColumn p (sortColumn r)")
  case (Inl a)
  with assms have "a = e" by (simp add: orderTerm_Inl)
  with Inl show ?thesis using assertColumn_Inl by blast
next
  case (Inr q)
  with assms show ?thesis using orderTerm_Inr [OF Inr] by auto
qed

lemma buildWhereClause_Inl_rejected:
  assumes "buildWhereClause p fs = Inl e"
  shows "columnRejected p (Inl e :: error + 'a)"
proof -
  from assms have "mapE (filterClause p) fs = Inl e"
    by (cases "mapE (filterClause p) fs") (auto simp: buildWhereClause_def bindE_def split: if_splits)
  then obtain f where "filterClause p f = Inl e"
    using mapE_Inl_elem by blast
  then show ?thesis by (rule filterClause_Inl_rejected)
qed

lemma buildOrderClause_Inl_rejected:
  assumes "buildOrderClause p rs = Inl e"
  shows "columnRejected p (Inl e :: error + 'a)"
proof -
  from assms have "mapE (orderTerm p) rs = Inl e"
    by (cases "mapE (orderTerm p) rs") (auto simp: buildOrderClause_def bindE_def split: if_splits)
  then obtain r where "orderTerm p r = Inl e"
    using mapE_Inl_elem by blast
  then show ?thesis by (rule orderTerm_Inl_rejected)
qed

lemma buildWhereClause_unknown:
  assumes "f \<in> set fs" and "\<not> knownColumn p (column f)"
  shows "\<exists>e. buildWhereClause p fs = Inl e"
proof -
  from assms(2) obtain e where "assertColumn p (column f) = Inl e"
    using assertColumn_unknown by blast
  then have "filterClause p f = Inl e" by (rule filterClause_Inl)
  with assms(1) obtain e' where "mapE (filterClause p) fs = Inl e'"
    using mapE_Inl by meson
  moreover from assms(1) have "fs \<noteq> []" by auto
  ultimately show ?thesis
    by (simp add: buildWhereClause_def bindE_def)
qed

lemma buildOrderClause_known:
  assumes "list_all (\<lambda>r. knownColumn p (sortColumn r)) rs" and "dColumns (dSchema p) \<noteq> []"
  shows "\<exists>w. buildOrderClause p rs = Inr w"
proof -
  have "\<exists>y. orderTerm p r = Inr y" if "r \<in> set rs" for r
  proof -
    from that assms(1) have k: "knownColumn p (sortColumn r)" by (simp add: list_all_iff)
    then have "columnSet p \<noteq> None" by (auto simp: knownColumn_def split: option.splits)
    with k assms(2) have "assertColumn p (sortColumn r) = Inr (quoteIdentifier (sortColumn r))"
      by (simp add: assertColumn_eq)
    then show ?thesis by (rule orderTerm_Inr)
  qed
  then obtain ys where "mapE (orderTerm p) rs = Inr ys"
    using mapE_Inr [of rs "orderTerm p"] by blast
  then show ?thesis by (simp add: buildOrderClause_def bindE_def)
qed

lemma buildOrderClause_unknown:
  assumes "r \<in> set rs" and "\<not> knownColumn p (sortColumn r)"
  shows "\<exists>e. buildOrderClause p rs = Inl e"
proof -
  from assms(2) obtain e where "assertColumn p (sortColumn r) = Inl e"
    using assertColumn_unknown by blast
  then have "orderTerm p r = Inl e" by (rule orderTerm_Inl)
  with assms(1) obtain e' where "mapE (orderTerm p) rs = Inl e'"
    using mapE_Inl by meson
  moreover from assms(1) have "rs \<noteq> []" by auto
  ultimately show ?thesis
    by (simp add: buildOrderClause_def bindE_def)
qed

lemma duckQuery_unknown:
  assumes "ensureSchema eng p = Inr p1"
    and "\<not> list_all (\<lambda>f. knownColumn p1 (column f)) (filters t)
         \<or> \<not> list_all (\<lambda>r. knownColumn p1 (sortColumn r)) (sortRules t)"
  shows "columnRejected p1 (duckQuery eng p t)"
proof (cases "buildWhereClause p1 (filters t)")
  case (Inl e)
  then have "columnRejected p1 (Inl e :: error + duckProvider \<times> duckSchema queryResult)"
    by (rule buildWhereClause_Inl_rejected)
  with Inl assms(1) show ?thesis
    by (simp add: duckQuery_def bindE_def)
next
  case (Inr w)
  then have "list_all (\<lambda>f. knownColumn p1 (column f)) (filters t)"
    using buildWhereClause_unknown [of _ "filters t" p1] by (auto simp: list_all_iff)
  with assms(2) obtain r where "r \<in> set (sortRules t)" "\<not> knownColumn p1 (sortColumn r)"
    by (auto simp: list_all_iff)
  then obtain e where e: "buildOrderClause p1 (sortRules t) = Inl e"
    using buildOrderClause_unknown by blast
  then have "columnRejected p1 (Inl e :: error + duckProvider \<times> duckSchema queryResult)"
    by (rule buildOrderClause_Inl_rejected)
  with Inr e assms(1) show ?thesis
    by (simp add: duckQuery_def bindE_def)
qed


text \<open>
  C7. When a column name is not in the column set of the loaded schema, building the \<open>WHERE\<close>
  clause for a filter list that holds a filter on it, and building the \<open>ORDER BY\<close> clause for
  a sort list that holds a rule on it, end in the error of \<open>assertColumn\<close> and produce no
  clause; so does a query whose transform names the column, once the schema is read.
\<close>

theorem unknown_column_is_rejected:
  assumes "\<not> knownColumn p c"
  shows "(f \<in> set fs \<and> column f = c \<longrightarrow> columnRejected p (buildWhereClause p fs))
       \<and> (r \<in> set rs \<and> sortColumn r = c \<longrightarrow> columnRejected p (buildOrderClause p rs))
       \<and> (ensureSchema eng p0 = Inr p
            \<and> (c \<in> column ` set (filters t) \<or> c \<in> sortColumn ` set (sortRules t))
          \<longrightarrow> columnRejected p (duckQuery eng p0 t))"
proof (intro conjI impI)
  assume a: "f \<in> set fs \<and> column f = c"
  with assms obtain e where "buildWhereClause p fs = Inl e"
    using buildWhereClause_unknown [of f fs p] by auto
  then show "columnRejected p (buildWhereClause p fs)"
    using buildWhereClause_Inl_rejected [of p fs e] by simp
next
  assume a: "r \<in> set rs \<and> sortColumn r = c"
  with assms obtain e where "buildOrderClause p rs = Inl e"
    using buildOrderClause_unknown [of r rs p] by auto
  then show "columnRejected p (buildOrderClause p rs)"
    using buildOrderClause_Inl_rejected [of p rs e] by simp
next
  assume a: "ensureSchema eng p0 = Inr p
      \<and> (c \<in> column ` set (filters t) \<or> c \<in> sortColumn ` set (sortRules t))"
  with assms have "\<not> list_all (\<lambda>f. knownColumn p (column f)) (filters t)
         \<or> \<not> list_all (\<lambda>r. knownColumn p (sortColumn r)) (sortRules t)"
    by (auto simp: list_all_iff)
  with a show "columnRejected p (duckQuery eng p0 t)"
    using duckQuery_unknown by blast
qed

lemma not_known_nope: "\<not> knownColumn sampleDuck ''nope''"
  by (simp add: knownColumn_def sampleDuck_def arrIncludes_def)

theorem unknown_column_is_rejected_witness:
  "\<not> knownColumn sampleDuck ''nope''
   \<and> buildWhereClause sampleDuck [nopeFilter] = Inl (UnknownColumn ''nope'')
   \<and> buildOrderClause sampleDuck [\<lparr>sortColumn = ''nope'', direction = ''asc''\<rparr>] = Inl (UnknownColumn ''nope'')
   \<and> columnRejected sampleDuck
        (duckQuery sampleEngine freshDuck \<lparr>filters = [nopeFilter], sortRules = [], pageOf = None\<rparr>)"
proof -
  have w: "buildWhereClause sampleDuck [nopeFilter] = Inl (UnknownColumn ''nope'')"
    by (simp add: buildWhereClause_def filterClause_def Let_def bindE_def assertColumn_def
        sampleDuck_def nopeFilter_def arrIncludes_def)
  have o: "buildOrderClause sampleDuck [\<lparr>sortColumn = ''nope'', direction = ''asc''\<rparr>] = Inl (UnknownColumn ''nope'')"
    by (simp add: buildOrderClause_def orderTerm_def bindE_def assertColumn_def
        sampleDuck_def arrIncludes_def)
  have c: "column nopeFilter = ''nope''" by (simp add: nopeFilter_def)
  from unknown_column_is_rejected [OF not_known_nope, of nopeFilter "[nopeFilter]" _ _ sampleEngine freshDuck
      "\<lparr>filters = [nopeFilter], sortRules = [], pageOf = None\<rparr>"]
    ensureSchema_sample c not_known_nope w o
  show ?thesis by simp
qed

subsection \<open>LIKE and ILIKE in the WHERE clause\<close>

lemma like_clause:
  assumes "assertColumn p (column f) = Inr col" and "toUpperCase (operator f) = ''LIKE''"
  shows "filterClause p f = Inr (col @ '' LIKE '' @ escapeValue (fvalue f))"
proof -
  from assms(2) have "operator f \<noteq> []" by (auto simp: toUpperCase_def)
  with assms show ?thesis
    by (simp add: filterClause_def Let_def bindE_def)
qed

lemma ilike_clause:
  assumes "assertColumn p (column f) = Inr col" and "toUpperCase (operator f) = ''ILIKE''"
  shows "filterClause p f =
           (case fvalue f of
              JArr vs \<Rightarrow>
                if vs = [] then Inr ''FALSE''
                else Inr (col @ '' IN ('' @ joinWith '', '' (map escapeValue vs) @ '')'')
            | _ \<Rightarrow> Inr (col @ '' = '' @ escapeValue (fvalue f)))"
proof -
  from assms(2) have "operator f \<noteq> []" by (auto simp: toUpperCase_def)
  with assms show ?thesis
    by (simp add: filterClause_def Let_def bindE_def)
qed

text \<open>
  C4. On the example schema the filter \<open>name ILIKE 'ali'\<close> is emitted as the equality
  \<open>"name" = 'ali'\<close>: the case \<open>ILIKE\<close> of the switch has no statement of its own and runs into
  the case \<open>IN\<close>. The filter \<open>name LIKE 'ali'\<close> is emitted as \<open>"name" LIKE 'ali'\<close>.
\<close>

theorem ilike_filter_is_emitted_as_equality:
  "filterClause sampleDuck \<lparr>column = ''name'', operator = ''ILIKE'', fvalue = JStr ''ali'', mode = None, columns = None\<rparr>
     = Inr (quoteIdentifier ''name'' @ '' = '' @ escapeValue (JStr ''ali''))
   \<and> filterClause sampleDuck \<lparr>column = ''name'', operator = ''LIKE'', fvalue = JStr ''ali'', mode = None, columns = None\<rparr>
     = Inr (quoteIdentifier ''name'' @ '' LIKE '' @ escapeValue (JStr ''ali''))
   \<and> quoteIdentifier ''name'' @ '' = '' @ escapeValue (JStr ''ali'')
     = [dquote] @ ''name'' @ [dquote] @ '' = '' @ [squote] @ ''ali'' @ [squote]"
  by (simp add: filterClause_def Let_def bindE_def assertColumn_def sampleDuck_def arrIncludes_def
      toUpperCase_def upperChar_def quoteIdentifier_def dquote_def squote_def)


subsection \<open>The Transform Builder\<close>

lemma addToGroups_keys:
  "map fst (addToGroups gs f) =
     (if eColumn f \<in> set (map fst gs) then map fst gs else map fst gs @ [eColumn f])"
  by (induction gs f rule: addToGroups.induct) auto

lemma addToGroups_member:
  assumes "(c, f0, fs) \<in> set (addToGroups gs f)" and "distinct (map fst gs)"
  shows "(c \<noteq> eColumn f \<and> (c, f0, fs) \<in> set gs)
       \<or> (c = eColumn f \<and> (\<exists>fs'. (c, f0, fs') \<in> set gs \<and> fs = fs' @ [f]))
       \<or> (c = eColumn f \<and> c \<notin> fst ` set gs \<and> f0 = f \<and> fs = [])"
  using assms
proof (induction gs f rule: addToGroups.induct)
  case (1 f)
  then show ?case by auto
next
  case (2 c' f0' fs' gs f)
  show ?case
  proof (cases "c' = eColumn f")
    case True
    with 2 show ?thesis by (auto simp: image_iff)
  next
    case False
    with 2 show ?thesis by (auto simp: image_iff)
  qed
qed

lemma groupsOf_step:
  assumes "groupsOf gs xs"
  shows "groupsOf (addToGroups gs f) (xs @ [f])"
  unfolding groupsOf_def
proof (intro conjI allI impI ballI)
  from assms have d: "distinct (map fst gs)" by (simp add: groupsOf_def)
  then show "distinct (map fst (addToGroups gs f))"
    by (simp add: addToGroups_keys)
next
  fix c f0 fs
  assume m: "(c, f0, fs) \<in> set (addToGroups gs f)"
  from assms have d: "distinct (map fst gs)"
    and b: "\<And>c f0 fs. (c, f0, fs) \<in> set gs \<Longrightarrow> [f \<leftarrow> xs. eColumn f = c] = f0 # fs"
    and k: "\<And>f. f \<in> set xs \<Longrightarrow> eColumn f \<in> fst ` set gs"
    by (auto simp: groupsOf_def)
  from addToGroups_member [OF m d]
  consider (other) "c \<noteq> eColumn f" "(c, f0, fs) \<in> set gs"
    | (push) fs' where "c = eColumn f" "(c, f0, fs') \<in> set gs" "fs = fs' @ [f]"
    | (new) "c = eColumn f" "c \<notin> fst ` set gs" "f0 = f" "fs = []"
    by blast
  then show "[f \<leftarrow> xs @ [f]. eColumn f = c] = f0 # fs"
  proof cases
    case other
    then show ?thesis using b by auto
  next
    case push
    then show ?thesis using b by auto
  next
    case new
    have "eColumn x \<noteq> c" if "x \<in> set xs" for x
      using k [OF that] new(2) by auto
    then have "[f \<leftarrow> xs. eColumn f = c] = []"
      by (simp add: filter_empty_conv)
    with new show ?thesis by simp
  qed
next
  fix g
  assume "g \<in> set (xs @ [f])"
  moreover from assms have "\<And>f. f \<in> set xs \<Longrightarrow> eColumn f \<in> fst ` set gs"
    by (auto simp: groupsOf_def)
  moreover have "fst ` set (addToGroups gs f) = set (map fst (addToGroups gs f))" by simp
  ultimately show "eColumn g \<in> fst ` set (addToGroups gs f)"
    unfolding \<open>fst ` set (addToGroups gs f) = set (map fst (addToGroups gs f))\<close> addToGroups_keys
    by (auto simp: image_iff)
qed

lemma groupsOf_foldl:
  "groupsOf gs xs \<Longrightarrow> groupsOf (foldl addToGroups gs ys) (xs @ ys)"
proof (induction ys arbitrary: gs xs)
  case Nil
  then show ?case by simp
next
  case (Cons y ys)
  from Cons.IH [OF groupsOf_step [OF Cons.prems, of y]] show ?case by simp
qed

lemma groupsOf_filtersByColumn: "groupsOf (filtersByColumn es) (filter eEnabled es)"
proof -
  have "groupsOf [] []" by (simp add: groupsOf_def)
  from groupsOf_foldl [OF this, of "filter eEnabled es"] show ?thesis
    by (simp add: filtersByColumn_def)
qed

lemma filter_key_unique:
  "distinct (map fst gs) \<Longrightarrow> (c, v) \<in> set gs \<Longrightarrow> [g \<leftarrow> gs. fst g = c] = [(c, v)]"
proof (induction gs)
  case Nil
  then show ?case by simp
next
  case (Cons a gs)
  show ?case
  proof (cases "a = (c, v)")
    case True
    with Cons.prems have "c \<notin> fst ` set gs" by auto
    then have "[g \<leftarrow> gs. fst g = c] = []" by (auto simp: filter_empty_conv image_iff)
    with True show ?thesis by simp
  next
    case False
    with Cons.prems have "(c, v) \<in> set gs" by auto
    with Cons.prems have "fst a \<noteq> c" by (auto simp: image_iff)
    with Cons \<open>(c, v) \<in> set gs\<close> show ?thesis by simp
  qed
qed

lemma groupToFilter_column:
  assumes "groupsOf gs xs" and "g \<in> set gs"
  shows "column (groupToFilter g) = fst g"
proof -
  obtain c f0 fs where g: "g = (c, f0, fs)" by (cases g) auto
  with assms have "[f \<leftarrow> xs. eColumn f = c] = f0 # fs" by (auto simp: groupsOf_def)
  then have "f0 \<in> set [f \<leftarrow> xs. eColumn f = c]" by simp
  then have "eColumn f0 = c" by simp
  with g show ?thesis by (simp add: groupToFilter_def)
qed

lemma filter_map_groupToFilter:
  assumes "groupsOf gs xs"
  shows "[cf \<leftarrow> map groupToFilter gs. column cf = c] = map groupToFilter [g \<leftarrow> gs. fst g = c]"
proof -
  have "filter ((\<lambda>cf. column cf = c) \<circ> groupToFilter) gs = filter (\<lambda>g. fst g = c) gs"
    using groupToFilter_column [OF assms] by (intro filter_cong) auto
  then show ?thesis by (simp add: filter_map)
qed

lemma canonical_for_column:
  assumes "groupsOf gs xs"
  shows "[cf \<leftarrow> map groupToFilter gs. column cf = c] =
     (case [f \<leftarrow> xs. eColumn f = c] of
        [] \<Rightarrow> []
      | f0 # fs \<Rightarrow> [groupToFilter (c, f0, fs)])"
proof (cases "[f \<leftarrow> xs. eColumn f = c]")
  case Nil
  have "c \<notin> fst ` set gs"
  proof
    assume "c \<in> fst ` set gs"
    then obtain f0 fs where "(c, f0, fs) \<in> set gs" by (auto simp: image_iff)
    with assms have "[f \<leftarrow> xs. eColumn f = c] = f0 # fs" by (auto simp: groupsOf_def)
    with Nil show False by simp
  qed
  then have "[g \<leftarrow> gs. fst g = c] = []" by (auto simp: filter_empty_conv image_iff)
  with Nil show ?thesis by (simp add: filter_map_groupToFilter [OF assms])
next
  case (Cons f0 fs)
  then have "f0 \<in> set [f \<leftarrow> xs. eColumn f = c]" by simp
  then have "f0 \<in> set xs" "eColumn f0 = c" by auto
  with assms have "c \<in> fst ` set gs" by (auto simp: groupsOf_def)
  then obtain f0' fs' where m: "(c, f0', fs') \<in> set gs" by (auto simp: image_iff)
  with assms have "[f \<leftarrow> xs. eColumn f = c] = f0' # fs'" by (auto simp: groupsOf_def)
  with Cons have "f0' = f0" "fs' = fs" by auto
  with m have "(c, f0, fs) \<in> set gs" by simp
  moreover from assms have "distinct (map fst gs)" by (simp add: groupsOf_def)
  ultimately have "[g \<leftarrow> gs. fst g = c] = [(c, f0, fs)]" by (rule filter_key_unique [rotated])
  with Cons show ?thesis by (simp add: filter_map_groupToFilter [OF assms])
qed


lemma groupMode_ANY:
  "groupMode f = ''ANY'' \<longleftrightarrow> eMode f = None \<or> eMode f = Some [] \<or> eMode f = Some ''ANY''"
  by (auto simp: groupMode_def split: option.splits)

lemma filters_for_column:
  "[cf \<leftarrow> filters (toTransformState h st). column cf = c] =
     (case [f \<leftarrow> sFilters st. eEnabled f \<and> eColumn f = c] of
        [] \<Rightarrow> []
      | f0 # fs \<Rightarrow> [groupToFilter (c, f0, fs)])"
proof -
  have "[f \<leftarrow> filter eEnabled (sFilters st). eColumn f = c]
          = [f \<leftarrow> sFilters st. eEnabled f \<and> eColumn f = c]"
    by simp
  with canonical_for_column [OF groupsOf_filtersByColumn [of "sFilters st"], of c] show ?thesis
    by (simp add: toTransformState_def)
qed

text \<open>
  C2, as amended. The canonical filters of a column \<open>c\<close> in the transform are given by the
  enabled entries of that column, in their order: none when there is no such entry; one entry
  passes through with its operator and value; two or more collapse into one filter whose
  operator is \<open>in\<close> when the first entry's mode is absent, empty or \<open>ANY\<close> and \<open>in_all\<close>
  otherwise, and whose value is the list of the entries' values. The transform has a filter
  with operator \<open>in\<close> or \<open>in_all\<close> for the column exactly when the column has two or more
  enabled entries, or has one whose own operator is \<open>in\<close> or \<open>in_all\<close>.
\<close>

theorem toTransformState_canonical_filters:
  "[cf \<leftarrow> filters (toTransformState h st). column cf = c] =
     (case [f \<leftarrow> sFilters st. eEnabled f \<and> eColumn f = c] of
        [] \<Rightarrow> []
      | [f] \<Rightarrow> [\<lparr>column = c, operator = eOperator f, fvalue = eValue f, mode = None, columns = None\<rparr>]
      | f # g \<Rightarrow>
          [\<lparr>column = c,
            operator = (if eMode f = None \<or> eMode f = Some [] \<or> eMode f = Some ''ANY''
                        then ''in'' else ''in_all''),
            fvalue = JArr (map eValue (f # g)),
            mode = Some (groupMode f), columns = None\<rparr>])
   \<and> ((\<exists>cf \<in> set (filters (toTransformState h st)).
          column cf = c \<and> (operator cf = ''in'' \<or> operator cf = ''in_all''))
       \<longleftrightarrow> 2 \<le> length [f \<leftarrow> sFilters st. eEnabled f \<and> eColumn f = c]
           \<or> (\<exists>f. [f \<leftarrow> sFilters st. eEnabled f \<and> eColumn f = c] = [f]
                  \<and> (eOperator f = ''in'' \<or> eOperator f = ''in_all'')))"
proof -
  let ?g = "[f \<leftarrow> sFilters st. eEnabled f \<and> eColumn f = c]"
  let ?out = "[cf \<leftarrow> filters (toTransformState h st). column cf = c]"
  have first: "?out =
     (case ?g of
        [] \<Rightarrow> []
      | [f] \<Rightarrow> [\<lparr>column = c, operator = eOperator f, fvalue = eValue f, mode = None, columns = None\<rparr>]
      | f # g \<Rightarrow>
          [\<lparr>column = c,
            operator = (if eMode f = None \<or> eMode f = Some [] \<or> eMode f = Some ''ANY''
                        then ''in'' else ''in_all''),
            fvalue = JArr (map eValue (f # g)),
            mode = Some (groupMode f), columns = None\<rparr>])"
  proof (cases ?g)
    case Nil
    then show ?thesis by (simp add: filters_for_column)
  next
    case (Cons f0 fs)
    then have "f0 \<in> set ?g" by simp
    then have c: "eColumn f0 = c" by simp
    show ?thesis
    proof (cases fs)
      case Nil
      with Cons c show ?thesis
        by (simp add: filters_for_column groupToFilter_def)
    next
      case (Cons f1 fs')
      with \<open>?g = f0 # fs\<close> show ?thesis
        by (simp add: filters_for_column groupToFilter_def groupMode_ANY)
    qed
  qed
  have ex: "(\<exists>cf \<in> set (filters (toTransformState h st)).
          column cf = c \<and> (operator cf = ''in'' \<or> operator cf = ''in_all''))
        \<longleftrightarrow> (\<exists>cf \<in> set ?out. operator cf = ''in'' \<or> operator cf = ''in_all'')"
    by auto
  have second: "(\<exists>cf \<in> set ?out. operator cf = ''in'' \<or> operator cf = ''in_all'')
       \<longleftrightarrow> 2 \<le> length ?g
           \<or> (\<exists>f. ?g = [f] \<and> (eOperator f = ''in'' \<or> eOperator f = ''in_all''))"
  proof (cases ?g)
    case Nil
    then show ?thesis unfolding first by simp
  next
    case (Cons f0 fs)
    show ?thesis
    proof (cases fs)
      case Nil
      with Cons show ?thesis unfolding first by simp
    next
      case (Cons f1 fs')
      with \<open>?g = f0 # fs\<close> show ?thesis unfolding first by simp
    qed
  qed
  from first ex second show ?thesis by simp
qed

theorem toTransformState_canonical_filters_witness:
  "[cf \<leftarrow> filters (toTransformState sampleHost (sampleState
        [tagEntry ''tags'' ''='' (JStr ''a'') (Some ''ALL''),
         tagEntry ''name'' ''LIKE'' (JStr ''li'') None,
         (tagEntry ''tags'' ''='' (JStr ''x'') (Some ''ALL''))\<lparr>eEnabled := False\<rparr>,
         tagEntry ''tags'' ''='' (JStr ''b'') (Some ''ALL'')])). column cf = ''tags'']
     = [\<lparr>column = ''tags'', operator = ''in_all'', fvalue = JArr [JStr ''a'', JStr ''b''],
         mode = Some ''ALL'', columns = None\<rparr>]
   \<and> filters (toTransformState sampleHost (sampleState
        [tagEntry ''tags'' ''='' (JStr ''a'') (Some ''ALL''),
         tagEntry ''name'' ''LIKE'' (JStr ''li'') None,
         (tagEntry ''tags'' ''='' (JStr ''x'') (Some ''ALL''))\<lparr>eEnabled := False\<rparr>,
         tagEntry ''tags'' ''='' (JStr ''b'') (Some ''ALL'')]))
     = [\<lparr>column = ''tags'', operator = ''in_all'', fvalue = JArr [JStr ''a'', JStr ''b''],
         mode = Some ''ALL'', columns = None\<rparr>,
        \<lparr>column = ''name'', operator = ''LIKE'', fvalue = JStr ''li'', mode = None, columns = None\<rparr>]"
proof -
  have a: "filters (toTransformState sampleHost (sampleState
        [tagEntry ''tags'' ''='' (JStr ''a'') (Some ''ALL''),
         tagEntry ''name'' ''LIKE'' (JStr ''li'') None,
         (tagEntry ''tags'' ''='' (JStr ''x'') (Some ''ALL''))\<lparr>eEnabled := False\<rparr>,
         tagEntry ''tags'' ''='' (JStr ''b'') (Some ''ALL'')]))
     = [\<lparr>column = ''tags'', operator = ''in_all'', fvalue = JArr [JStr ''a'', JStr ''b''],
         mode = Some ''ALL'', columns = None\<rparr>,
        \<lparr>column = ''name'', operator = ''LIKE'', fvalue = JStr ''li'', mode = None, columns = None\<rparr>]"
    by (simp add: toTransformState_def filtersByColumn_def groupToFilter_def sampleState_def
        tagEntry_def groupMode_def)
  from toTransformState_canonical_filters [where h = sampleHost and st = "sampleState
        [tagEntry ''tags'' ''='' (JStr ''a'') (Some ''ALL''),
         tagEntry ''name'' ''LIKE'' (JStr ''li'') None,
         (tagEntry ''tags'' ''='' (JStr ''x'') (Some ''ALL''))\<lparr>eEnabled := False\<rparr>,
         tagEntry ''tags'' ''='' (JStr ''b'') (Some ''ALL'')]" and c = "''tags''"] a
  show ?thesis
    by (simp add: sampleState_def tagEntry_def groupMode_def)
qed

text \<open>
  The claim's last sentence fails as stated: a single enabled entry whose operator is \<open>in\<close>
  passes through, so the transform has the operator \<open>in\<close> for a column with one entry.
\<close>

theorem single_entry_with_operator_in_counterexample:
  "filters (toTransformState sampleHost
      (sampleState [\<lparr>eColumn = ''tags'', eOperator = ''in'', eValue = JArr [JStr ''a'', JStr ''b''],
                     eEnabled = True, eMode = None\<rparr>]))
     = [\<lparr>column = ''tags'', operator = ''in'', fvalue = JArr [JStr ''a'', JStr ''b''],
         mode = None, columns = None\<rparr>]
   \<and> length [f \<leftarrow> sFilters (sampleState [\<lparr>eColumn = ''tags'', eOperator = ''in'',
                 eValue = JArr [JStr ''a'', JStr ''b''], eEnabled = True, eMode = None\<rparr>]).
               eEnabled f \<and> eColumn f = ''tags''] = 1"
  by (simp add: toTransformState_def filtersByColumn_def groupToFilter_def sampleState_def)

subsection \<open>Parsing and serializing\<close>

lemma splitOn_nonempty: "splitOn c xs \<noteq> []"
  by (induction xs) (auto split: list.splits)

lemma joinWith_Cons: "ps \<noteq> [] \<Longrightarrow> joinWith sep (p # ps) = p @ sep @ joinWith sep ps"
  by (cases ps) simp_all

lemma join_split: "joinWith [c] (splitOn c xs) = xs"
proof (induction xs)
  case Nil
  then show ?case by simp
next
  case (Cons x xs)
  obtain p ps where s: "splitOn c xs = p # ps"
    using splitOn_nonempty [of c xs] by (cases "splitOn c xs") auto
  show ?case
  proof (cases "x = c")
    case True
    with Cons s show ?thesis by simp
  next
    case False
    with Cons s show ?thesis by (cases ps) auto
  qed
qed

lemma startsWith_append: "startsWith v p \<Longrightarrow> v = p @ drop (length p) v"
  by (induction v p rule: startsWith.induct) auto

lemma space_is_space: "isSpace CHR '' ''"
  by (simp add: isSpace_def)

lemma colon_not_word: "\<not> isWordChar CHR '':''"
  by (simp add: isWordChar_def)

lemma space_not_word: "\<not> isWordChar CHR '' ''"
  by (simp add: isWordChar_def)

lemma serialize_filterBlockOf:
  assumes "\<not> startsWith v ''=''" and "\<not> startsWith v ''~''"
  shows "serializeBlock (filterBlockOf key v) = key @ '':'' @ v"
proof (cases "find (startsWith v) operatorSigils")
  case None
  then show ?thesis
    by (simp add: filterBlockOf_def matchOperator_def normalizeOperator_def serializeBlock_def)
next
  case (Some op)
  then have s: "startsWith v op" and m: "op \<in> set operatorSigils"
    by (auto simp: find_Some_iff)
  from s have v: "v = op @ drop (length op) v" by (rule startsWith_append)
  from m s assms have "op \<in> {''>='', ''<='', ''!='', ''>'', ''<'', ''LIKE'', ''IN''}"
    by (auto simp: operatorSigils_def)
  then have "normalizeOperator op = op \<and> op \<noteq> ''=''"
    by (auto simp: normalizeOperator_def)
  with Some v show ?thesis
    by (simp add: filterBlockOf_def matchOperator_def serializeBlock_def)
qed

lemma matchAt_token:
  assumes "wellFormedToken t" and "r = [] \<or> (\<exists>r'. r = CHR '' '' # r')"
  shows "\<exists>b. matchAt (t @ r) = Some (b, r) \<and> serializeBlock b = t"
proof -
  let ?key = "takeWhile isWordChar t"
  let ?rest = "dropWhile isWordChar t"
  have tns: "takeWhile notSpace r = []" and dns: "dropWhile notSpace r = r"
    and twp: "takeWhile wordPart r = []" and dwp: "dropWhile wordPart r = r"
    using assms(2) by (auto simp: notSpace_def wordPart_def space_is_space)
  show ?thesis
  proof (cases "?rest \<noteq> [] \<and> hd ?rest = CHR '':''")
    case True
    then obtain v where rest: "?rest = CHR '':'' # v" by (cases ?rest) auto
    from True assms(1) have key: "?key \<noteq> []" and v: "v \<noteq> []" "list_all notSpace v"
      and ops: "\<not> startsWith v ''=''" "\<not> startsWith v ''~''"
      using rest by (simp_all add: wellFormedToken_def Let_def)
    have t: "t = ?key @ CHR '':'' # v"
      using rest takeWhile_dropWhile_id [of isWordChar t] by simp
    have "CHR '':'' \<in> set t" using t by (metis in_set_conv_decomp)
    then have tk: "takeWhile isWordChar (t @ r) = ?key"
      and dk: "dropWhile isWordChar (t @ r) = ?rest @ r"
      using colon_not_word by (simp_all add: takeWhile_append1 dropWhile_append1)
    have tv: "takeWhile notSpace (v @ r) = v" and dv: "dropWhile notSpace (v @ r) = r"
      using v(2) tns dns by (simp_all add: list_all_iff takeWhile_append2 dropWhile_append2)
    have "matchAt (t @ r) = Some (filterBlockOf ?key v, r)"
      using key v(1) tv dv by (simp add: matchAt_def Let_def tk dk rest)
    moreover have "serializeBlock (filterBlockOf ?key v) = t"
      using serialize_filterBlockOf [OF ops, of ?key] t by simp
    ultimately show ?thesis by blast
  next
    case False
    with assms(1) have ne: "t \<noteq> []" and wp: "list_all wordPart t"
      by (simp_all add: wellFormedToken_def Let_def)
    have tw: "takeWhile wordPart (t @ r) = t" and dw: "dropWhile wordPart (t @ r) = r"
      using wp twp dwp by (simp_all add: list_all_iff takeWhile_append2 dropWhile_append2)
    have nocolon: "dropWhile isWordChar (t @ r) = [] \<or> hd (dropWhile isWordChar (t @ r)) \<noteq> CHR '':''"
    proof (cases "dropWhile isWordChar (t @ r)")
      case Nil
      then show ?thesis by simp
    next
      case (Cons a as)
      then have "a \<in> set (t @ r)" by (metis list.set_intros(1) set_dropWhileD)
      have "a \<noteq> CHR '':''"
      proof
        assume a: "a = CHR '':''"
        show False
        proof (cases "?rest")
          case Nil
          then have all: "\<And>x. x \<in> set t \<Longrightarrow> isWordChar x"
            by (metis dropWhile_eq_Nil_conv)
          then have "dropWhile isWordChar (t @ r) = dropWhile isWordChar r"
            by (simp add: dropWhile_append2)
          with Cons a assms(2) show False
            by (auto simp: space_not_word)
        next
          case (Cons b bs)
          then have "b \<in> set t" by (metis list.set_intros(1) set_dropWhileD)
          have "\<not> isWordChar b" using Cons by (metis hd_dropWhile list.sel(1) list.distinct(1))
          with \<open>b \<in> set t\<close> have "dropWhile isWordChar (t @ r) = ?rest @ r"
            by (simp add: dropWhile_append1)
          with Cons \<open>dropWhile isWordChar (t @ r) = a # as\<close> have "a = b" by simp
          with a Cons False show False by simp
        qed
      qed
      with Cons show ?thesis by simp
    qed
    have "matchAt (t @ r) = Some (FulltextBlock t t, r)"
      using nocolon ne by (auto simp: matchAt_def Let_def tw dw)
    then show ?thesis by (simp add: serializeBlock_def)
  qed
qed

lemma wellFormedToken_nonempty: "wellFormedToken t \<Longrightarrow> t \<noteq> []"
  by (auto simp: wellFormedToken_def Let_def split: if_splits)

lemma matchAt_space: "matchAt (CHR '' '' # r) = None"
  by (simp add: matchAt_def Let_def space_not_word wordPart_def space_is_space)

lemma parseFrom_space: "parseFrom (CHR '' '' # r) = parseFrom r"
  by (simp add: matchAt_space)

lemma parseFrom_token:
  assumes "wellFormedToken t" and "r = [] \<or> (\<exists>r'. r = CHR '' '' # r')"
  shows "\<exists>b. parseFrom (t @ r) = b # parseFrom r \<and> serializeBlock b = t"
proof -
  from matchAt_token [OF assms] obtain b where b: "matchAt (t @ r) = Some (b, r)" "serializeBlock b = t"
    by blast
  from assms(1) obtain c cs where "t @ r = c # cs"
    using wellFormedToken_nonempty by (cases t) auto
  with b show ?thesis by (metis (no_types, lifting) parseFrom.simps(2) option.simps(5) prod.simps(2))
qed

lemma parse_tokens:
  "list_all wellFormedToken ts \<Longrightarrow> map serializeBlock (parseFrom (joinWith '' '' ts)) = ts"
proof (induction ts)
  case Nil
  then show ?case by simp
next
  case (Cons t ts)
  then have t: "wellFormedToken t" and rest: "list_all wellFormedToken ts" by simp_all
  show ?case
  proof (cases ts)
    case Nil
    from parseFrom_token [OF t, of "[]"] Nil show ?thesis by auto
  next
    case (Cons u us)
    from parseFrom_token [OF t, of "CHR '' '' # joinWith '' '' ts"]
    obtain b where "parseFrom (t @ CHR '' '' # joinWith '' '' ts)
          = b # parseFrom (CHR '' '' # joinWith '' '' ts)" "serializeBlock b = t"
      by auto
    with Cons.IH [OF rest] Cons show ?thesis
      by (simp add: parseFrom_space del: parseFrom.simps)
  qed
qed

text \<open>
  C3, as amended. For a well-formed expression (tokens separated by single blanks, no value
  starting with \<open>=\<close> or \<open>~\<close>) serializing the parsed blocks gives the expression back, and a
  filter block with the operator \<open>=\<close> is written \<open>column:value\<close>.
\<close>

theorem serialize_parse_round_trip:
  assumes "wellFormed x"
  shows "serializeBlocks (parseExpression x) = x
       \<and> serializeBlock (FilterBlock col ''='' v raw) = col @ '':'' @ v"
proof -
  have "serializeBlocks (parseExpression x) = x"
  proof (cases "x = []")
    case True
    then show ?thesis by (simp add: serializeBlocks_def parseExpression_def)
  next
    case False
    with assms have "list_all wellFormedToken (splitOn CHR '' '' x)"
      by (simp add: wellFormed_def)
    from parse_tokens [OF this] show ?thesis
      using join_split [of "CHR '' ''" x] by (simp add: serializeBlocks_def parseExpression_def)
  qed
  then show ?thesis by (simp add: serializeBlock_def)
qed

theorem serialize_parse_round_trip_witness:
  "wellFormed ''department:Engineering salary:>50000 senior''
   \<and> serializeBlocks (parseExpression ''department:Engineering salary:>50000 senior'')
       = ''department:Engineering salary:>50000 senior''"
proof -
  have w: "wellFormed ''department:Engineering salary:>50000 senior''"
    by code_simp
  from serialize_parse_round_trip [OF w] w show ?thesis by simp
qed

text \<open>
  The claim fails as stated: two blanks between two words come back as one, and the
  operator \<open>~\<close> of the grammar comes back as \<open>LIKE\<close>.
\<close>

theorem round_trip_counterexample:
  "serializeBlocks (parseExpression ''engineering  manager'') = ''engineering manager''
   \<and> serializeBlocks (parseExpression ''name:~John'') = ''name:LIKEJohn''"
  by code_simp

subsection \<open>The two executors\<close>

text \<open>
  An example of a query that the SQL executor answers: with no filter, no sort rule and no
  pagination it returns the engine's rows and the engine's count.
\<close>

lemma sample_select:
  "duckQuery sampleEngine freshDuck emptyTransform
     = Inr (sampleDuck,
            \<lparr>resultData =
               [[(''__rowid'', JNum 0), (''id'', JNum 1), (''name'', JStr ''Alice''),
                 (''department'', JStr ''Engineering > Backend''), (''active'', JBool True)],
                [(''__rowid'', JNum 1), (''id'', JNum 2), (''name'', JStr ''Bob''),
                 (''department'', JStr ''HR''), (''active'', JBool False)],
                [(''__rowid'', JNum 2), (''id'', JNum 3), (''name'', JStr ''Carol''),
                 (''department'', JStr ''Engineering > Frontend''), (''active'', JBool True)]],
             totalCount = JNum 3, resultSchema = dSchema sampleDuck\<rparr>)"
  by (simp add: duckQuery_def ensureSchema_sample bindE_def emptyTransform_def buildWhereClause_def
      buildOrderClause_def buildSelectClause_def buildPaginationClause_def queryCount_def
      getTableIdentifier_data sampleDuck_def joinClauses_def sampleEngine_def quoteIdentifier_def
      dquote_def getField_def jsOr_def truthy_def)



text \<open>
  C1. The data and the \<open>totalCount\<close> of the SQL executor are the answers of the engine to the
  generated statements, and the engine is a parameter here, so that the two executors return
  identical results is not a statement about these definitions. What the definitions decide
  by themselves speaks against it. For a filter on a column that is not in the schema the
  native executor returns an empty result and the SQL executor throws. For a filter with an
  operator neither executor knows, on a column of the schema, the SQL executor sends the
  \<open>WHERE\<close> clause of the \<open>=\<close> filter, while the native executor returns every row for the one
  and only the equal row for the other.
\<close>

lemma executors_disagree_examples:
  "nativeQuery sampleHost sampleProvider \<lparr>filters = [nopeFilter], sortRules = [], pageOf = None\<rparr>
     = \<lparr>resultData = [], totalCount = JNum 0, resultSchema = nSchema sampleProvider\<rparr>
   \<and> duckQuery sampleEngine freshDuck \<lparr>filters = [nopeFilter], sortRules = [], pageOf = None\<rparr>
     = Inl (UnknownColumn ''nope'')
   \<and> buildWhereClause sampleDuck [nopeFilter\<lparr>column := ''name'', operator := ''FOO'', fvalue := JStr ''Alice''\<rparr>]
     = buildWhereClause sampleDuck [nopeFilter\<lparr>column := ''name'', operator := ''='', fvalue := JStr ''Alice''\<rparr>]
   \<and> totalCount (nativeQuery sampleHost sampleProvider
        \<lparr>filters = [nopeFilter\<lparr>column := ''name'', operator := ''FOO'', fvalue := JStr ''Alice''\<rparr>],
         sortRules = [], pageOf = None\<rparr>) = JNum 3
   \<and> totalCount (nativeQuery sampleHost sampleProvider
        \<lparr>filters = [nopeFilter\<lparr>column := ''name'', operator := ''='', fvalue := JStr ''Alice''\<rparr>],
         sortRules = [], pageOf = None\<rparr>) = JNum 1"
proof -
  have a: "nativeQuery sampleHost sampleProvider \<lparr>filters = [nopeFilter], sortRules = [], pageOf = None\<rparr>
     = \<lparr>resultData = [], totalCount = JNum 0, resultSchema = nSchema sampleProvider\<rparr>"
    by (simp add: nativeQuery_def Let_def filteredRows_def matchesFilters_def matchesFilter_def
        checkCondition_def nopeFilter_def sampleProvider_def sampleRows_def getField_def)
  have b: "duckQuery sampleEngine freshDuck \<lparr>filters = [nopeFilter], sortRules = [], pageOf = None\<rparr>
     = Inl (UnknownColumn ''nope'')"
    by (simp add: duckQuery_def ensureSchema_sample bindE_def buildWhereClause_def filterClause_def
        Let_def assertColumn_def sampleDuck_def nopeFilter_def arrIncludes_def)
  have c: "buildWhereClause sampleDuck [nopeFilter\<lparr>column := ''name'', operator := ''FOO'', fvalue := JStr ''Alice''\<rparr>]
     = buildWhereClause sampleDuck [nopeFilter\<lparr>column := ''name'', operator := ''='', fvalue := JStr ''Alice''\<rparr>]"
    by (simp add: buildWhereClause_def filterClause_def Let_def bindE_def assertColumn_def
        sampleDuck_def nopeFilter_def arrIncludes_def toUpperCase_def upperChar_def)
  have d: "totalCount (nativeQuery sampleHost sampleProvider
        \<lparr>filters = [nopeFilter\<lparr>column := ''name'', operator := ''FOO'', fvalue := JStr ''Alice''\<rparr>],
         sortRules = [], pageOf = None\<rparr>) = JNum 3"
    by (simp add: nativeQuery_def Let_def filteredRows_def matchesFilters_def matchesFilter_def
        checkCondition_def nopeFilter_def sampleProvider_def sampleRows_def getField_def)
  have e: "totalCount (nativeQuery sampleHost sampleProvider
        \<lparr>filters = [nopeFilter\<lparr>column := ''name'', operator := ''='', fvalue := JStr ''Alice''\<rparr>],
         sortRules = [], pageOf = None\<rparr>) = JNum 1"
    by (simp add: nativeQuery_def Let_def filteredRows_def matchesFilters_def matchesFilter_def
        checkCondition_def nopeFilter_def sampleProvider_def sampleRows_def getField_def)
  from a b c d e show ?thesis by simp
qed


end
